theory Spec2Isabelle
  imports Main "HOL-Library.AList"
begin

section \<open>Python values, exceptions and control flow\<close>

text \<open>
  The program is \<^verbatim>\<open>ads2coa.py\<close>: it validates a spreadsheet template, grows one table of
  the sheet to one row per author record and saves the workbook.  Exceptions are values:
  a function of the source that may raise returns \<open>py_error + 'a\<close> when it has no effect
  on the workbook, and a pair of \<open>py_error option\<close> and the state reached when it mutates
  it, so that the state at the moment of a raise is part of the result.
\<close>

datatype py_error = ValueError string | KeyError string | IndexError

type_synonym 's outcome = "py_error option \<times> 's"

text \<open>List indexing \<^verbatim>\<open>xs[i]\<close> with a non-negative index.\<close>

fun py_index :: "'a list \<Rightarrow> nat \<Rightarrow> py_error + 'a" where
  "py_index xs i = (if i < length xs then Inr (xs ! i) else Inl IndexError)"

text \<open>\<^verbatim>\<open>s.split(sep)\<close> for a one-character separator: every occurrence splits, and
  empty components are kept.\<close>

fun py_split :: "char \<Rightarrow> string \<Rightarrow> string list" where
  "py_split sep [] = [] # []"
| "py_split sep (c # cs) =
     (if c = sep then [] # py_split sep cs
      else (case py_split sep cs of [] \<Rightarrow> [c] # [] | w # ws \<Rightarrow> (c # w) # ws))"

text \<open>\<^verbatim>\<open>sep.join(parts)\<close>.\<close>

fun py_join :: "string \<Rightarrow> string list \<Rightarrow> string" where
  "py_join sep [] = []"
| "py_join sep [w] = w"
| "py_join sep (w # v # ws) = w @ sep @ py_join sep (v # ws)"

text \<open>\<^verbatim>\<open>str(n)\<close> of an integer, as the f-strings of the source format it.\<close>

definition digit_char :: "nat \<Rightarrow> char" where
  "digit_char d = ''0123456789'' ! d"

fun str_nat :: "nat \<Rightarrow> string" where
  "str_nat n =
     (if n < 10 then [digit_char n] else str_nat (n div 10) @ [digit_char (n mod 10)])"

declare str_nat.simps [simp del]

definition str_int :: "int \<Rightarrow> string" where
  "str_int i = (if i < 0 then CHR ''-'' # str_nat (nat (- i)) else str_nat (nat i))"

text \<open>A \<^verbatim>\<open>for\<close> loop whose body may raise: the loop stops at the first exception and
  keeps the state reached.\<close>

fun for_each :: "('a \<Rightarrow> 's \<Rightarrow> 's outcome) \<Rightarrow> 'a list \<Rightarrow> 's \<Rightarrow> 's outcome" where
  "for_each body [] s = (None, s)"
| "for_each body (x # xs) s =
     (case body x s of
        (None, s') \<Rightarrow> for_each body xs s'
      | (Some e, s') \<Rightarrow> (Some e, s'))"

text \<open>Statements in sequence; a statement that cannot raise is lifted by \<open>returning\<close>.\<close>

definition run_stages :: "('s \<Rightarrow> 's outcome) list \<Rightarrow> 's \<Rightarrow> 's outcome" where
  "run_stages stages s = for_each (\<lambda>stage. stage) stages s"

definition returning :: "('s \<Rightarrow> 's) \<Rightarrow> 's \<Rightarrow> 's outcome" where
  "returning f s = (None, f s)"

section \<open>Module constants\<close>

definition TABLE4_START_ROW :: int where
  "TABLE4_START_ROW = 52"

definition TABLE4_TEMPLATE_PERSON :: string where
  "TABLE4_TEMPLATE_PERSON = ''Alphaman, Lin''"

definition NUMBER_OF_EXISTING_ROWS_IN_TABLE4 :: int where
  "NUMBER_OF_EXISTING_ROWS_IN_TABLE4 = 5"

definition TEMPLATE_SHEET :: string where
  "TEMPLATE_SHEET = ''NSF COA Template''"

section \<open>The workbook\<close>

text \<open>
  The spreadsheet library is not part of the repository; the workbook is modelled by what
  the program reads and writes of it.  A cell has a value and style attributes; the style
  objects are opaque to the program and are numbered here.  \<open>protection\<close> stands for the
  attributes of a cell that \<^verbatim>\<open>copy_range\<close> does not copy.  A worksheet maps every coordinate
  (row, column), both counted from 1, to a cell: a cell the library has not created yet
  reads as \<open>empty_cell\<close>, which is what the library creates on first access.  Columns
  A to E are 1 to 5.  A table has the three attributes the program passes on.  Sheets and
  tables are kept in insertion order, as the library's dictionaries keep them.
\<close>

datatype cell_value = VNone | VStr string | VNum int

record cell =
  cvalue :: cell_value
  font :: nat
  alignment :: nat
  border :: nat
  fill :: nat
  number_format :: string
  protection :: nat

definition empty_cell :: cell where
  "empty_cell = \<lparr>cvalue = VNone, font = 0, alignment = 0, border = 0, fill = 0,
     number_format = ''General'', protection = 0\<rparr>"

type_synonym coord = "int \<times> int"

record table =
  displayName :: string
  name :: string
  ref :: string

record worksheet =
  cells :: "coord \<Rightarrow> cell"
  tables :: "(string \<times> table) list"

type_synonym workbook = "(string \<times> worksheet) list"

text \<open>One line of the CSV file, with the column names \<^verbatim>\<open>read_csv\<close> is given.\<close>

record affiliation =
  author :: string
  affil :: string
  date :: string

text \<open>The object \<^verbatim>\<open>self\<close> of class \<^verbatim>\<open>COA\<close>, and the file \<^verbatim>\<open>out_filename\<close>: \<open>None\<close> until
  \<^verbatim>\<open>self.wb.save\<close> writes it.\<close>

record coa =
  wb :: workbook
  wb_alt :: workbook
  df :: "affiliation list"
  out_file :: "workbook option"

subsection \<open>Library operations\<close>

text \<open>\<^verbatim>\<open>sheet.cell(row, column)\<close>, \<^verbatim>\<open>sheet["B52"]\<close> and \<^verbatim>\<open>cell.offset\<close> refuse a row or a
  column below 1.\<close>

definition bad_coordinate :: py_error where
  "bad_coordinate = ValueError ''Row or column values must be at least 1''"

definition set_cell :: "coord \<Rightarrow> (cell \<Rightarrow> cell) \<Rightarrow> worksheet \<Rightarrow> worksheet" where
  "set_cell rc f sheet = sheet\<lparr>cells := (cells sheet)(rc := f (cells sheet rc))\<rparr>"

definition set_value :: "int \<Rightarrow> int \<Rightarrow> cell_value \<Rightarrow> worksheet \<Rightarrow> worksheet" where
  "set_value r c v sheet = set_cell (r, c) (\<lambda>x. x\<lparr>cvalue := v\<rparr>) sheet"

text \<open>A range string such as \<^verbatim>\<open>"A57:E57"\<close> is given by the bounds the library parses it
  to; \<^verbatim>\<open>rows_from_range\<close> yields its coordinates row by row.\<close>

record cell_range =
  min_col :: int
  min_row :: int
  max_col :: int
  max_row :: int

definition rows_from_range :: "cell_range \<Rightarrow> coord list list" where
  "rows_from_range rg =
     map (\<lambda>r. map (\<lambda>c. (r, c)) [min_col rg..max_col rg]) [min_row rg..max_row rg]"

definition row_A_to_E :: "int \<Rightarrow> cell_range" where
  "row_A_to_E r = \<lparr>min_col = 1, min_row = r, max_col = 5, max_row = r\<rparr>"

text \<open>
  \<^verbatim>\<open>sheet.insert_rows(idx, amount)\<close> inserts \<open>amount\<close> rows before row \<open>idx\<close>: the cells
  of the rows from \<open>idx\<close> on move down by \<open>amount\<close> and the rows in between are new and
  empty.  The library documents this for a positive amount only; what it does with an
  amount of zero or below is the parameter \<open>lib\<close>, and every result below holds for any
  \<open>lib\<close>.  Tables are not moved with the rows.
\<close>

type_synonym row_mover = "int \<Rightarrow> int \<Rightarrow> (coord \<Rightarrow> cell) \<Rightarrow> (coord \<Rightarrow> cell)"

definition insert_rows :: "row_mover \<Rightarrow> int \<Rightarrow> int \<Rightarrow> worksheet \<Rightarrow> worksheet" where
  "insert_rows lib idx amount sheet =
     sheet\<lparr>cells :=
       (if 0 < amount then
          (\<lambda>(r, c). if r < idx then cells sheet (r, c)
                    else if r < idx + amount then empty_cell
                    else cells sheet (r - amount, c))
        else lib idx amount (cells sheet))\<rparr>"

text \<open>\<^verbatim>\<open>del sheet.tables[key]\<close>, \<^verbatim>\<open>wb[sheet].tables[key]\<close> and \<^verbatim>\<open>sheet.add_table\<close>, which
  refuses a name that a table of any sheet of the workbook has (the library compares the
  names without case and also looks at the defined names; neither is modelled).\<close>

definition del_table :: "string \<Rightarrow> worksheet \<Rightarrow> worksheet outcome" where
  "del_table k sheet =
     (case map_of (tables sheet) k of
        None \<Rightarrow> (Some (KeyError k), sheet)
      | Some t \<Rightarrow> (None, sheet\<lparr>tables := AList.delete k (tables sheet)\<rparr>))"

definition get_table :: "workbook \<Rightarrow> string \<Rightarrow> string \<Rightarrow> py_error + table" where
  "get_table w sheet_name k =
     (case map_of w sheet_name of
        None \<Rightarrow> Inl (KeyError sheet_name)
      | Some sheet \<Rightarrow>
         (case map_of (tables sheet) k of None \<Rightarrow> Inl (KeyError k) | Some t \<Rightarrow> Inr t))"

definition duplicate_name :: "workbook \<Rightarrow> string \<Rightarrow> bool" where
  "duplicate_name w nm \<longleftrightarrow> nm \<in> set (concat (map (\<lambda>(title, sheet). map fst (tables sheet)) w))"

definition add_table :: "workbook \<Rightarrow> table \<Rightarrow> worksheet \<Rightarrow> worksheet outcome" where
  "add_table parent tab sheet =
     (if duplicate_name parent (name tab)
      then (Some (ValueError (''Table with name '' @ name tab @ '' already exists'')), sheet)
      else (None, sheet\<lparr>tables := AList.update (name tab) tab (tables sheet)\<rparr>))"

section \<open>The program\<close>

subsection \<open>\<^verbatim>\<open>copy_range\<close>\<close>

text \<open>The body of the inner loop: the destination cell is looked up first, then the
  source cell; the value and five style attributes are assigned one after the other.
  With an offset of 0 the two are the same cell.\<close>

definition paste :: "cell \<Rightarrow> cell \<Rightarrow> cell" where
  "paste src_cell dst_cell =
     dst_cell\<lparr>cvalue := cvalue src_cell, font := font src_cell,
       alignment := alignment src_cell, border := border src_cell,
       fill := fill src_cell, number_format := number_format src_cell\<rparr>"

definition copy_cell :: "int \<Rightarrow> coord \<Rightarrow> worksheet \<Rightarrow> worksheet outcome" where
  "copy_cell offset rc sheet =
     (case rc of (r, c) \<Rightarrow>
        if r < 1 \<or> c < 1 \<or> r + offset < 1 then (Some bad_coordinate, sheet)
        else
          let src_cell = cells sheet (r, c) in
          (None, set_cell (r + offset, c) (paste src_cell) sheet))"

definition copy_range :: "cell_range \<Rightarrow> worksheet \<Rightarrow> int \<Rightarrow> worksheet outcome" where
  "copy_range range_str sheet offset =
     for_each (\<lambda>row. for_each (copy_cell offset) row) (rows_from_range range_str) sheet"

subsection \<open>\<^verbatim>\<open>COA._check_is_template\<close>\<close>

definition check_is_template :: "coa \<Rightarrow> py_error option" where
  "check_is_template self =
     (case py_index (map fst (wb self)) 0 of
        Inl e \<Rightarrow> Some e
      | Inr first_name \<Rightarrow>
          if first_name \<noteq> TEMPLATE_SHEET
          then Some (ValueError ''The first sheet of the workbook is not the NSF COA template'')
          else
            (case map_of (wb self) TEMPLATE_SHEET of
               None \<Rightarrow> Some (KeyError TEMPLATE_SHEET)
             | Some sheet \<Rightarrow>
                 if cvalue (cells sheet (TABLE4_START_ROW, 2)) \<noteq> VStr TABLE4_TEMPLATE_PERSON
                 then Some (ValueError ''The first row of the table 4 is not the template person'')
                 else
                   (case map_of (tables sheet) ''TableD'' of
                      None \<Rightarrow> Some (KeyError ''TableD'')
                    | Some t \<Rightarrow>
                        if ref t \<noteq> ''A51:E56''
                        then Some (ValueError ''The table 4 is not in the correct location'')
                        else None)))"

subsection \<open>\<^verbatim>\<open>COA._permute_date\<close>\<close>

definition permute_date :: "string \<Rightarrow> py_error + string" where
  "permute_date date_str =
     (let date = py_split CHR ''/'' date_str in
      (case py_index date 1 of
         Inl e \<Rightarrow> Inl e
       | Inr d1 \<Rightarrow>
          (case py_index date 2 of
             Inl e \<Rightarrow> Inl e
           | Inr d2 \<Rightarrow>
              (case py_index date 0 of
                 Inl e \<Rightarrow> Inl e
               | Inr d0 \<Rightarrow> Inr (d1 @ ''/'' @ d2 @ ''/'' @ d0)))))"

subsection \<open>\<^verbatim>\<open>COA.add_author_affiliations\<close>\<close>

text \<open>The method, statement by statement, on the sheet \<^verbatim>\<open>self.wb["NSF COA Template"]\<close>.\<close>

definition clear_first_rows :: "worksheet \<Rightarrow> worksheet" where
  "clear_first_rows sheet =
     fold (\<lambda>i. fold (\<lambda>j. set_value (TABLE4_START_ROW + int i) (int j + 1) VNone) [0..<5])
       [0..<2] sheet"

definition copy_last_row :: "int \<Rightarrow> worksheet \<Rightarrow> worksheet outcome" where
  "copy_last_row num_to_add sheet =
     copy_range (row_A_to_E (TABLE4_START_ROW + 5)) sheet
       (num_to_add + NUMBER_OF_EXISTING_ROWS_IN_TABLE4 + 1)"

definition insert_author_rows :: "row_mover \<Rightarrow> int \<Rightarrow> worksheet \<Rightarrow> worksheet" where
  "insert_author_rows lib num_to_add sheet =
     insert_rows lib (TABLE4_START_ROW + 2) num_to_add sheet"

definition style_new_rows :: "int \<Rightarrow> worksheet \<Rightarrow> worksheet outcome" where
  "style_new_rows num_to_add sheet =
     for_each (\<lambda>i s. copy_range (row_A_to_E TABLE4_START_ROW) s (1 + int i))
       [0..<nat num_to_add] sheet"

definition write_author :: "nat \<times> affiliation \<Rightarrow> worksheet \<Rightarrow> worksheet outcome" where
  "write_author ir sheet =
     (case ir of (i, row) \<Rightarrow>
        let r = TABLE4_START_ROW + int i;
            s1 = set_value r 1 (VStr ''A:'') sheet;
            s2 = set_value r 2 (VStr (author row)) s1;
            s3 = set_value r 3 (VStr (affil row)) s2;
            s4 = set_value r 4 (VStr []) s3
        in (case permute_date (date row) of
              Inl e \<Rightarrow> (Some e, s4)
            | Inr d \<Rightarrow> (None, set_value r 5 (VStr d) s4)))"

definition write_authors :: "affiliation list \<Rightarrow> worksheet \<Rightarrow> worksheet outcome" where
  "write_authors rows sheet = for_each write_author (enumerate 0 rows) sheet"

text \<open>The two blocks that delete a table and add it again with a new range; the parent
  workbook that \<^verbatim>\<open>add_table\<close> searches for the name holds the sheet as it is by then.\<close>

definition readd_table :: "coa \<Rightarrow> string \<Rightarrow> string \<Rightarrow> worksheet \<Rightarrow> worksheet outcome" where
  "readd_table self k new_ref sheet =
     (case del_table k sheet of
        (Some e, s1) \<Rightarrow> (Some e, s1)
      | (None, s1) \<Rightarrow>
          (case get_table (wb_alt self) TEMPLATE_SHEET k of
             Inl e \<Rightarrow> (Some e, s1)
           | Inr new_d \<Rightarrow>
               add_table (AList.update TEMPLATE_SHEET s1 (wb self))
                 \<lparr>displayName = displayName new_d, name = name new_d, ref = new_ref\<rparr> s1))"

definition ref_TableD5 :: "int \<Rightarrow> string" where
  "ref_TableD5 num_to_add =
     ''A'' @ str_int (58 + num_to_add + NUMBER_OF_EXISTING_ROWS_IN_TABLE4) @
     '':E'' @ str_int (68 + num_to_add + NUMBER_OF_EXISTING_ROWS_IN_TABLE4)"

definition ref_TableD :: "int \<Rightarrow> string" where
  "ref_TableD num_to_add =
     ''A'' @ str_int (TABLE4_START_ROW - 1) @
     '':E'' @ str_int (TABLE4_START_ROW + num_to_add + NUMBER_OF_EXISTING_ROWS_IN_TABLE4 - 1)"

definition expand_sheet :: "row_mover \<Rightarrow> coa \<Rightarrow> worksheet \<Rightarrow> worksheet outcome" where
  "expand_sheet lib self sheet =
     (let num_to_add = int (length (df self)) - NUMBER_OF_EXISTING_ROWS_IN_TABLE4 in
      run_stages
        [returning clear_first_rows,
         copy_last_row num_to_add,
         returning (insert_author_rows lib num_to_add),
         style_new_rows num_to_add,
         write_authors (df self),
         readd_table self ''TableD5'' (ref_TableD5 num_to_add),
         readd_table self ''TableD'' (ref_TableD num_to_add)] sheet)"

text \<open>The sheet is an object of the workbook and is changed in place, so the workbook
  holds whatever was done to it, also when a statement raises.\<close>

definition add_author_affiliations :: "row_mover \<Rightarrow> coa \<Rightarrow> coa outcome" where
  "add_author_affiliations lib self =
     (case map_of (wb self) TEMPLATE_SHEET of
        None \<Rightarrow> (Some (KeyError TEMPLATE_SHEET), self)
      | Some sheet \<Rightarrow>
          (case expand_sheet lib self sheet of
             (err, sheet') \<Rightarrow> (err, self\<lparr>wb := AList.update TEMPLATE_SHEET sheet' (wb self)\<rparr>)))"

subsection \<open>\<^verbatim>\<open>COA.__init__\<close>\<close>

text \<open>From the two \<^verbatim>\<open>load_workbook\<close> calls on: the template as loaded and the rows of the CSV
  file as read are the inputs.  Finding or downloading the template file comes before
  and is not modelled.\<close>

definition loaded :: "workbook \<Rightarrow> coa" where
  "loaded template = \<lparr>wb = template, wb_alt = template, df = [], out_file = None\<rparr>"

definition COA_init :: "row_mover \<Rightarrow> workbook \<Rightarrow> affiliation list \<Rightarrow> coa outcome" where
  "COA_init lib template csv =
     (let self = loaded template in
      (case check_is_template self of
         Some e \<Rightarrow> (Some e, self)
       | None \<Rightarrow>
          (case add_author_affiliations lib (self\<lparr>df := csv\<rparr>) of
             (Some e, self') \<Rightarrow> (Some e, self')
           | (None, self') \<Rightarrow> (None, self'\<lparr>out_file := Some (wb self')\<rparr>))))"

section \<open>Notions of the specification\<close>

text \<open>The inverse transform of the date reformatting, in the specification's words: the
  last \<open>/\<close>-separated component is moved back to the front.\<close>

definition unpermute_date_spec :: "string \<Rightarrow> string" where
  "unpermute_date_spec s =
     (let parts = py_split CHR ''/'' s in py_join ''/'' (last parts # butlast parts))"

definition two_separators :: "string \<Rightarrow> bool" where
  "two_separators s \<longleftrightarrow> count_list s CHR ''/'' = 2"

section \<open>Closed forms and example data\<close>

text \<open>What \<^verbatim>\<open>copy_range\<close> leaves in the cells when the rows it reads are not rows it has
  written before: one row, and a whole range.\<close>

definition copied_row :: "int \<Rightarrow> int \<Rightarrow> int list \<Rightarrow> (coord \<Rightarrow> cell) \<Rightarrow> (coord \<Rightarrow> cell)" where
  "copied_row offset r cols cs =
     (\<lambda>(r', c'). if r' = r + offset \<and> c' \<in> set cols then paste (cs (r, c')) (cs (r', c'))
                  else cs (r', c'))"

definition copied_cells :: "int \<Rightarrow> cell_range \<Rightarrow> (coord \<Rightarrow> cell) \<Rightarrow> (coord \<Rightarrow> cell)" where
  "copied_cells offset rg cs =
     (\<lambda>(r, c). if min_row rg + offset \<le> r \<and> r \<le> max_row rg + offset \<and>
                   min_col rg \<le> c \<and> c \<le> max_col rg
                then paste (cs (r - offset, c)) (cs (r, c)) else cs (r, c))"

text \<open>A sheet with \<open>x\<close>, \<open>y\<close> and \<open>z\<close> in A1, A2 and A3, and the range \<^verbatim>\<open>"A1:A3"\<close>.\<close>

definition xyz_sheet :: worksheet where
  "xyz_sheet =
     \<lparr>cells = (\<lambda>rc. empty_cell)
        ((1, 1) := empty_cell\<lparr>cvalue := VStr ''x''\<rparr>,
         (2, 1) := empty_cell\<lparr>cvalue := VStr ''y''\<rparr>,
         (3, 1) := empty_cell\<lparr>cvalue := VStr ''z''\<rparr>),
      tables = []\<rparr>"

definition range_A1_A3 :: cell_range where
  "range_A1_A3 = \<lparr>min_col = 1, min_row = 1, max_col = 1, max_row = 3\<rparr>"

section \<open>The three shape checks\<close>

text \<open>What it is for each of the three checks of \<^verbatim>\<open>_check_is_template\<close> to fail, on the
  workbook as loaded: the first sheet has another name; cell B52 of the template sheet is
  not the placeholder person; the template sheet has no table \<open>TableD\<close> with the range
  \<open>A51:E56\<close>, be it that the table is missing or that its range is another.  (A loaded
  workbook has at least one sheet; for the empty list of sheets none of the three holds.)\<close>

definition check1_fails :: "workbook \<Rightarrow> bool" where
  "check1_fails template \<longleftrightarrow>
     (case template of [] \<Rightarrow> False | (title, sheet) # others \<Rightarrow> title \<noteq> ''NSF COA Template'')"

definition check2_fails :: "workbook \<Rightarrow> bool" where
  "check2_fails template \<longleftrightarrow>
     (case map_of template ''NSF COA Template'' of
        None \<Rightarrow> False
      | Some sheet \<Rightarrow> cvalue (cells sheet (52, 2)) \<noteq> VStr ''Alphaman, Lin'')"

definition check3_fails :: "workbook \<Rightarrow> bool" where
  "check3_fails template \<longleftrightarrow>
     (case map_of template ''NSF COA Template'' of
        None \<Rightarrow> False
      | Some sheet \<Rightarrow>
         (case map_of (tables sheet) ''TableD'' of
            None \<Rightarrow> True
          | Some t \<Rightarrow> ref t \<noteq> ''A51:E56''))"

text \<open>The error the specification expects, the descriptive message of the first check that
  fails, and the error the program raises, which differs when the table is missing: the
  lookup \<^verbatim>\<open>sheet.tables["TableD"]\<close> raises before the range is compared.\<close>

definition shape_error_spec :: "workbook \<Rightarrow> py_error" where
  "shape_error_spec template =
     (if check1_fails template
      then ValueError ''The first sheet of the workbook is not the NSF COA template''
      else if check2_fails template
      then ValueError ''The first row of the table 4 is not the template person''
      else ValueError ''The table 4 is not in the correct location'')"

definition table_missing :: "workbook \<Rightarrow> bool" where
  "table_missing template \<longleftrightarrow>
     (case map_of template ''NSF COA Template'' of
        None \<Rightarrow> False
      | Some sheet \<Rightarrow> map_of (tables sheet) ''TableD'' = None)"

definition shape_error :: "workbook \<Rightarrow> py_error" where
  "shape_error template =
     (if check1_fails template
      then ValueError ''The first sheet of the workbook is not the NSF COA template''
      else if check2_fails template
      then ValueError ''The first row of the table 4 is not the template person''
      else if table_missing template
      then KeyError ''TableD''
      else ValueError ''The table 4 is not in the correct location'')"

text \<open>A small template, and four workbooks that fail one check each: a renamed sheet, a
  first author that was replaced, a table with another range, and no table \<open>TableD\<close>.\<close>

definition template_cells :: "coord \<Rightarrow> cell" where
  "template_cells =
     (\<lambda>rc. empty_cell)
       ((52, 2) := empty_cell\<lparr>cvalue := VStr ''Alphaman, Lin'', font := 7\<rparr>,
        (53, 2) := empty_cell\<lparr>cvalue := VStr ''Betaman, Max'', font := 7\<rparr>,
        (57, 1) := empty_cell\<lparr>cvalue := VStr ''Table 5'', border := 3\<rparr>)"

definition template_tables :: "(string \<times> table) list" where
  "template_tables =
     [(''TableD'', \<lparr>displayName = ''TableD'', name = ''TableD'', ref = ''A51:E56''\<rparr>),
      (''TableD5'', \<lparr>displayName = ''TableD5'', name = ''TableD5'', ref = ''A63:E73''\<rparr>)]"

definition small_template :: workbook where
  "small_template = [(''NSF COA Template'', \<lparr>cells = template_cells, tables = template_tables\<rparr>)]"

definition renamed_template :: workbook where
  "renamed_template = [(''Sheet1'', \<lparr>cells = template_cells, tables = template_tables\<rparr>)]"

definition edited_template :: workbook where
  "edited_template =
     [(''NSF COA Template'',
       \<lparr>cells = template_cells((52, 2) := empty_cell\<lparr>cvalue := VStr ''Curie, Marie''\<rparr>),
        tables = template_tables\<rparr>)]"

definition moved_template :: workbook where
  "moved_template =
     [(''NSF COA Template'',
       \<lparr>cells = template_cells,
        tables = [(''TableD'', \<lparr>displayName = ''TableD'', name = ''TableD'', ref = ''A51:E59''\<rparr>)]\<rparr>)]"

definition untabled_template :: workbook where
  "untabled_template =
     [(''NSF COA Template'',
       \<lparr>cells = template_cells,
        tables = [(''TableD5'', \<lparr>displayName = ''TableD5'', name = ''TableD5'', ref = ''A63:E73''\<rparr>)]\<rparr>)]"

definition no_rows_moved :: row_mover where
  "no_rows_moved idx amount cs = cs"

section \<open>What a written row holds\<close>

text \<open>Row \<open>r\<close> of the sheet holds the record \<open>row\<close>: the marker in column A, the author in
  B, the affiliation in C, the empty string in D and the reformatted date in E.\<close>

definition row_holds :: "worksheet \<Rightarrow> int \<Rightarrow> affiliation \<Rightarrow> bool" where
  "row_holds sheet r row \<longleftrightarrow>
     cvalue (cells sheet (r, 1)) = VStr ''A:'' \<and>
     cvalue (cells sheet (r, 2)) = VStr (author row) \<and>
     cvalue (cells sheet (r, 3)) = VStr (affil row) \<and>
     cvalue (cells sheet (r, 4)) = VStr [] \<and>
     (case permute_date (date row) of
        Inl e \<Rightarrow> False
      | Inr d \<Rightarrow> cvalue (cells sheet (r, 5)) = VStr d)"

section \<open>Valid templates and well-formed records\<close>

text \<open>A valid template passes the three checks; its sheet also has the second table,
  \<open>TableD5\<close>, that the program deletes and adds again; each of the two tables is stored
  under its own name, as the library stores the tables it loads; and no other sheet has
  a table of either name.  A record is well formed when its date has the two separators
  of \<open>YYYY/MM/DD\<close> (more are tolerated).\<close>

definition valid_template :: "workbook \<Rightarrow> bool" where
  "valid_template template \<longleftrightarrow>
     (case template of
        [] \<Rightarrow> False
      | (title, sheet) # others \<Rightarrow>
          title = ''NSF COA Template'' \<and>
          cvalue (cells sheet (52, 2)) = VStr ''Alphaman, Lin'' \<and>
          (case map_of (tables sheet) ''TableD'' of
             None \<Rightarrow> False
           | Some t \<Rightarrow> ref t = ''A51:E56'' \<and> name t = ''TableD'') \<and>
          (case map_of (tables sheet) ''TableD5'' of
             None \<Rightarrow> False
           | Some t \<Rightarrow> name t = ''TableD5'') \<and>
          \<not> duplicate_name others ''TableD'' \<and> \<not> duplicate_name others ''TableD5'')"

definition well_formed :: "affiliation list \<Rightarrow> bool" where
  "well_formed csv \<longleftrightarrow> list_all (\<lambda>row. 2 \<le> count_list (date row) CHR ''/'') csv"

text \<open>The sheet of the output, and the range of one of its tables.\<close>

definition output_sheet :: "coa \<Rightarrow> worksheet option" where
  "output_sheet self =
     (case out_file self of None \<Rightarrow> None | Some w \<Rightarrow> map_of w ''NSF COA Template'')"

definition table_ref :: "worksheet \<Rightarrow> string \<Rightarrow> string option" where
  "table_ref sheet k = map_option ref (map_of (tables sheet) k)"

text \<open>The range of a table in the output of a run: \<open>None\<close> when the run raised, wrote no
  output or the output has no such table.\<close>

definition output_table_ref :: "coa outcome \<Rightarrow> string \<Rightarrow> string option" where
  "output_table_ref run k =
     (case run of
        (Some e, self) \<Rightarrow> None
      | (None, self) \<Rightarrow>
          (case output_sheet self of None \<Rightarrow> None | Some sheet \<Rightarrow> table_ref sheet k))"

text \<open>The specification's reading of a relocated table: both boundary rows of the range
  \<open>A\<close>first\<open>:E\<close>last move down by \<open>k\<close> rows.\<close>

definition shifted_ref_spec :: "int \<Rightarrow> int \<Rightarrow> int \<Rightarrow> string" where
  "shifted_ref_spec first_row last_row k =
     ''A'' @ str_int (first_row + k) @ '':E'' @ str_int (last_row + k)"

text \<open>The specification's reading of an insertion: \<open>k\<close> blank rows from row \<open>idx\<close> on, the
  rows above in place and the rows from \<open>idx\<close> on \<open>k\<close> rows further down.\<close>

definition rows_inserted_spec :: "int \<Rightarrow> int \<Rightarrow> (coord \<Rightarrow> cell) \<Rightarrow> (coord \<Rightarrow> cell) \<Rightarrow> bool" where
  "rows_inserted_spec idx k before after \<longleftrightarrow>
     (\<forall>r c. after (r, c) =
        (if r < idx then before (r, c)
         else if r < idx + k then empty_cell
         else before (r - k, c)))"

text \<open>Author records for the examples.\<close>

definition authors :: "string list \<Rightarrow> affiliation list" where
  "authors names = map (\<lambda>a. \<lparr>author = a, affil = ''AIRA'', date = ''2022/06/01''\<rparr>) names"

definition five_authors :: "affiliation list" where
  "five_authors = authors [''Curie, Marie'', ''Noether, Emmy'', ''Meitner, Lise'',
     ''Franklin, Rosalind'', ''Hopper, Grace'']"

definition six_authors :: "affiliation list" where
  "six_authors = five_authors @ authors [''Lovelace, Ada'']"

definition eight_authors :: "affiliation list" where
  "eight_authors = six_authors @ authors [''Germain, Sophie'', ''Kovalevskaya, Sofia'']"

definition template_sheet :: worksheet where
  "template_sheet = \<lparr>cells = template_cells, tables = template_tables\<rparr>"

text \<open>The statements of \<^verbatim>\<open>add_author_affiliations\<close> that come before the insertion of the
  rows.\<close>

definition rows_prepared :: "int \<Rightarrow> worksheet \<Rightarrow> worksheet outcome" where
  "rows_prepared num_to_add sheet =
     run_stages [returning clear_first_rows, copy_last_row num_to_add] sheet"

text \<open>A cell of the output of a run: \<open>None\<close> when the run raised or wrote no output.\<close>

definition output_cell :: "coa outcome \<Rightarrow> coord \<Rightarrow> cell option" where
  "output_cell run rc =
     (case run of
        (Some e, self) \<Rightarrow> None
      | (None, self) \<Rightarrow>
          (case output_sheet self of None \<Rightarrow> None | Some sheet \<Rightarrow> Some (cells sheet rc)))"

section \<open>Splitting and joining\<close>

lemmas module_constants =
  TABLE4_START_ROW_def TABLE4_TEMPLATE_PERSON_def NUMBER_OF_EXISTING_ROWS_IN_TABLE4_def
  TEMPLATE_SHEET_def

lemma py_split_not_Nil: "py_split sep s \<noteq> []"
  by (induction s) (auto split: list.splits)

lemma length_py_split: "length (py_split sep s) = Suc (count_list s sep)"
  by (induction s) (auto split: list.splits simp: py_split_not_Nil)

lemma py_split_sep_free: "w \<in> set (py_split sep s) \<Longrightarrow> sep \<notin> set w"
  by (induction s arbitrary: w) (auto split: list.splits if_splits)

lemma py_join_split: "py_join [sep] (py_split sep s) = s"
proof (induction s)
  case Nil
  show ?case by simp
next
  case (Cons c cs)
  obtain w ws where sp: "py_split sep cs = w # ws"
    using py_split_not_Nil [of sep cs] by (cases "py_split sep cs") auto
  show ?case
  proof (cases "c = sep")
    case True
    with Cons sp show ?thesis by simp
  next
    case False
    with Cons sp show ?thesis by (cases ws) auto
  qed
qed

lemma py_split_no_sep: "sep \<notin> set a \<Longrightarrow> py_split sep a = [a]"
  by (induction a) auto

lemma py_split_append:
  "sep \<notin> set a \<Longrightarrow> py_split sep (a @ sep # rest) = a # py_split sep rest"
  by (induction a) auto

lemma count_list_sep_free: "x \<notin> set a \<Longrightarrow> count_list a x = 0"
  by (induction a) auto

section \<open>Date reformatting\<close>

text \<open>\<^verbatim>\<open>_permute_date\<close> depends on the components of the split only: with three or more it
  returns the second, the third and the first, and with fewer the index is out of range.\<close>

lemma permute_date_cases:
  "permute_date s =
     (case py_split CHR ''/'' s of
        c0 # c1 # c2 # cs \<Rightarrow> Inr (c1 @ ''/'' @ c2 @ ''/'' @ c0)
      | _ \<Rightarrow> Inl IndexError)"
  by (simp add: permute_date_def split: list.splits)

lemma two_separators_parts:
  assumes "two_separators s"
  obtains a b c where "py_split CHR ''/'' s = [a, b, c]"
    and "s = a @ ''/'' @ b @ ''/'' @ c"
    and "CHR ''/'' \<notin> set a" "CHR ''/'' \<notin> set b" "CHR ''/'' \<notin> set c"
proof -
  have "length (py_split CHR ''/'' s) = 3"
    using assms by (simp add: length_py_split two_separators_def)
  then obtain a b c where sp: "py_split CHR ''/'' s = [a, b, c]"
    by (auto simp: length_Suc_conv numeral_3_eq_3)
  have "s = py_join ''/'' (py_split CHR ''/'' s)"
    using py_join_split [of "CHR ''/''" s] by simp
  then have "s = a @ ''/'' @ b @ ''/'' @ c" by (simp add: sp)
  moreover have "CHR ''/'' \<notin> set a" "CHR ''/'' \<notin> set b" "CHR ''/'' \<notin> set c"
    using py_split_sep_free [of _ "CHR ''/''" s] by (simp_all add: sp)
  ultimately show thesis using sp that by blast
qed

lemma two_separators_join:
  "CHR ''/'' \<notin> set a \<Longrightarrow> CHR ''/'' \<notin> set b \<Longrightarrow> CHR ''/'' \<notin> set c \<Longrightarrow>
   two_separators (a @ ''/'' @ b @ ''/'' @ c)"
  by (simp add: two_separators_def count_list_sep_free)

lemma permute_date_parts:
  "CHR ''/'' \<notin> set a \<Longrightarrow> CHR ''/'' \<notin> set b \<Longrightarrow> CHR ''/'' \<notin> set c \<Longrightarrow>
   permute_date (a @ ''/'' @ b @ ''/'' @ c) = Inr (b @ ''/'' @ c @ ''/'' @ a)"
  by (simp add: permute_date_cases py_split_append py_split_no_sep)

lemma unpermute_date_parts:
  "CHR ''/'' \<notin> set a \<Longrightarrow> CHR ''/'' \<notin> set b \<Longrightarrow> CHR ''/'' \<notin> set c \<Longrightarrow>
   unpermute_date_spec (b @ ''/'' @ c @ ''/'' @ a) = a @ ''/'' @ b @ ''/'' @ c"
  by (simp add: unpermute_date_spec_def py_split_append py_split_no_sep)

lemma permute_date_roundtrip:
  assumes "two_separators s"
  shows "\<exists>t. permute_date s = Inr t \<and> two_separators t \<and> unpermute_date_spec t = s"
proof -
  from assms obtain a b c where s: "s = a @ ''/'' @ b @ ''/'' @ c"
    and f: "CHR ''/'' \<notin> set a" "CHR ''/'' \<notin> set b" "CHR ''/'' \<notin> set c"
    by (rule two_separators_parts)
  have "permute_date s = Inr (b @ ''/'' @ c @ ''/'' @ a)"
    unfolding s using f by (rule permute_date_parts)
  moreover have "two_separators (b @ ''/'' @ c @ ''/'' @ a)"
    using f by (intro two_separators_join)
  moreover have "unpermute_date_spec (b @ ''/'' @ c @ ''/'' @ a) = s"
    unfolding s using f by (rule unpermute_date_parts)
  ultimately show ?thesis by blast
qed

lemma permute_date_onto:
  assumes "two_separators t"
  shows "\<exists>s. two_separators s \<and> permute_date s = Inr t"
proof -
  from assms obtain b c a where t: "t = b @ ''/'' @ c @ ''/'' @ a"
    and f: "CHR ''/'' \<notin> set b" "CHR ''/'' \<notin> set c" "CHR ''/'' \<notin> set a"
    by (rule two_separators_parts)
  have "two_separators (a @ ''/'' @ b @ ''/'' @ c)"
    using f by (intro two_separators_join)
  moreover have "permute_date (a @ ''/'' @ b @ ''/'' @ c) = Inr t"
    unfolding t using f by (intro permute_date_parts)
  ultimately show ?thesis by blast
qed

lemma permute_date_Inr_iff:
  "(\<exists>t. permute_date s = Inr t) \<longleftrightarrow> 2 \<le> count_list s CHR ''/''"
proof -
  have "length (py_split CHR ''/'' s) = Suc (count_list s CHR ''/'')"
    by (rule length_py_split)
  then show ?thesis
    by (auto simp: permute_date_cases split: list.splits)
qed

lemma four_or_more:
  "3 < length xs \<Longrightarrow> \<exists>c0 c1 c2 c3 cs. xs = c0 # c1 # c2 # c3 # cs"
proof -
  assume "3 < length xs"
  then have "Suc (Suc (Suc (Suc 0))) \<le> length xs" by simp
  then show ?thesis unfolding Suc_le_length_iff by auto
qed

lemma permute_date_long:
  assumes "2 < count_list s CHR ''/''"
  shows "\<exists>c0 c1 c2 c3 cs. py_split CHR ''/'' s = c0 # c1 # c2 # c3 # cs \<and>
           permute_date s = Inr (c1 @ ''/'' @ c2 @ ''/'' @ c0)"
proof -
  have "length (py_split CHR ''/'' s) = Suc (count_list s CHR ''/'')"
    by (rule length_py_split)
  with assms have "3 < length (py_split CHR ''/'' s)" by simp
  then obtain c0 c1 c2 c3 cs where "py_split CHR ''/'' s = c0 # c1 # c2 # c3 # cs"
    using four_or_more by blast
  then show ?thesis by (simp add: permute_date_cases)
qed

text \<open>
  Claim C5.  On the strings with exactly two \<open>/\<close> separators the date reformatting is a
  bijection: it returns a string with exactly two separators again, the inverse
  transform of the specification (the last component moved back to the front) recovers
  the input, so two inputs with the same output are equal, and every string with two
  separators is the output of one.
\<close>

theorem permute_date_bijection:
  "(\<forall>s. two_separators s \<longrightarrow>
      (\<exists>t. permute_date s = Inr t \<and> two_separators t \<and> unpermute_date_spec t = s)) \<and>
   (\<forall>s s'. two_separators s \<and> two_separators s' \<and> permute_date s = permute_date s'
      \<longrightarrow> s = s') \<and>
   (\<forall>t. two_separators t \<longrightarrow> (\<exists>s. two_separators s \<and> permute_date s = Inr t))"
proof (intro conjI allI impI)
  fix s assume "two_separators s"
  then show "\<exists>t. permute_date s = Inr t \<and> two_separators t \<and> unpermute_date_spec t = s"
    by (rule permute_date_roundtrip)
next
  fix s s' assume h: "two_separators s \<and> two_separators s' \<and> permute_date s = permute_date s'"
  then obtain t where t: "permute_date s = Inr t" "unpermute_date_spec t = s"
    using permute_date_roundtrip by blast
  from h obtain t' where t': "permute_date s' = Inr t'" "unpermute_date_spec t' = s'"
    using permute_date_roundtrip by blast
  from h t t' show "s = s'" by simp
next
  fix t assume "two_separators t"
  then show "\<exists>s. two_separators s \<and> permute_date s = Inr t"
    by (rule permute_date_onto)
qed

theorem permute_date_bijection_witness:
  "two_separators ''2022/06/01'' \<and> permute_date ''2022/06/01'' = Inr ''06/01/2022'' \<and>
   two_separators ''06/01/2022'' \<and> unpermute_date_spec ''06/01/2022'' = ''2022/06/01''"
proof -
  have h: "two_separators ''2022/06/01''" by (simp add: two_separators_def)
  from permute_date_bijection h
  have "\<exists>t. permute_date ''2022/06/01'' = Inr t \<and> two_separators t \<and>
            unpermute_date_spec t = ''2022/06/01''" by blast
  moreover have "permute_date ''2022/06/01'' = Inr ''06/01/2022''"
    by (simp add: permute_date_def)
  ultimately show ?thesis using h by auto
qed

text \<open>
  Claim C6.  A date string of three components \<open>A/B/C\<close> is returned as \<open>B/C/A\<close>, whatever
  the components are: nothing checks that they are a year, a month or a day.
\<close>

theorem permute_date_reorders:
  "CHR ''/'' \<notin> set a \<Longrightarrow> CHR ''/'' \<notin> set b \<Longrightarrow> CHR ''/'' \<notin> set c \<Longrightarrow>
   permute_date (a @ ''/'' @ b @ ''/'' @ c) = Inr (b @ ''/'' @ c @ ''/'' @ a)"
  by (rule permute_date_parts)

theorem permute_date_reorders_witness:
  "CHR ''/'' \<notin> set ''2022'' \<and> CHR ''/'' \<notin> set ''13'' \<and> CHR ''/'' \<notin> set ''45'' \<and>
   permute_date ''2022/13/45'' = Inr ''13/45/2022''"
  using permute_date_reorders [of "''2022''" "''13''" "''45''"] by simp

text \<open>
  Claim C8, as stated: the date reformatting never fails, whatever the string.  It
  fails on a string with fewer than two separators: the second or third component
  does not exist and the index raises.
\<close>

theorem permute_date_total_counterexample:
  "permute_date ''2022-06-01'' = Inl IndexError"
  by (simp add: permute_date_def)

text \<open>
  Claim C8, amended.  The date reformatting returns a string for every input with at
  least two \<open>/\<close> separators, and raises \<open>IndexError\<close> for every input with fewer.
\<close>

theorem permute_date_returns:
  "(2 \<le> count_list s CHR ''/'' \<longrightarrow> (\<exists>t. permute_date s = Inr t)) \<and>
   (count_list s CHR ''/'' < 2 \<longrightarrow> permute_date s = Inl IndexError)"
proof (intro conjI impI)
  assume "2 \<le> count_list s CHR ''/''"
  then show "\<exists>t. permute_date s = Inr t" by (simp add: permute_date_Inr_iff)
next
  assume "count_list s CHR ''/'' < 2"
  then have "\<not> (\<exists>t. permute_date s = Inr t)" by (simp add: permute_date_Inr_iff)
  then show "permute_date s = Inl IndexError"
    by (auto simp: permute_date_cases split: list.splits)
qed

theorem permute_date_returns_witness:
  "2 \<le> count_list ''1/2/3/4'' CHR ''/'' \<and> (\<exists>t. permute_date ''1/2/3/4'' = Inr t) \<and>
   count_list ''2022/06'' CHR ''/'' < 2 \<and> permute_date ''2022/06'' = Inl IndexError"
  using permute_date_returns [of "''1/2/3/4''"] permute_date_returns [of "''2022/06''"]
  by simp

text \<open>
  Claim C10.  A string with more than two separators splits into four or more
  components, and the output is made of the first three only; so the function is not
  injective on these strings.
\<close>

theorem permute_date_discards_tail:
  "(2 < count_list s CHR ''/'' \<longrightarrow>
      (\<exists>c0 c1 c2 c3 cs. py_split CHR ''/'' s = c0 # c1 # c2 # c3 # cs \<and>
         permute_date s = Inr (c1 @ ''/'' @ c2 @ ''/'' @ c0))) \<and>
   \<not> inj_on permute_date {s. 2 < count_list s CHR ''/''}"
proof (intro conjI impI)
  assume "2 < count_list s CHR ''/''"
  then show "\<exists>c0 c1 c2 c3 cs. py_split CHR ''/'' s = c0 # c1 # c2 # c3 # cs \<and>
         permute_date s = Inr (c1 @ ''/'' @ c2 @ ''/'' @ c0)"
    by (rule permute_date_long)
next
  have "permute_date ''2022/06/01/x'' = permute_date ''2022/06/01/y''"
    by (simp add: permute_date_def)
  moreover have "''2022/06/01/x'' \<noteq> ''2022/06/01/y''" by simp
  moreover have "2 < count_list ''2022/06/01/x'' CHR ''/''"
    and "2 < count_list ''2022/06/01/y'' CHR ''/''" by simp_all
  ultimately show "\<not> inj_on permute_date {s. 2 < count_list s CHR ''/''}"
    unfolding inj_on_def by blast
qed

theorem permute_date_discards_tail_witness:
  "2 < count_list ''2022/06/01/x'' CHR ''/'' \<and>
   permute_date ''2022/06/01/x'' = Inr ''06/01/2022''"
proof -
  have "2 < count_list ''2022/06/01/x'' CHR ''/''" by simp
  with permute_date_discards_tail [of "''2022/06/01/x''"]
  have "\<exists>c0 c1 c2 c3 cs. py_split CHR ''/'' ''2022/06/01/x'' = c0 # c1 # c2 # c3 # cs \<and>
         permute_date ''2022/06/01/x'' = Inr (c1 @ ''/'' @ c2 @ ''/'' @ c0)" by blast
  then show ?thesis by auto
qed

section \<open>Copying a range\<close>

lemma paste_same [simp]: "paste x x = x"
  by (simp add: paste_def)

lemma paste_paste [simp]: "paste a (paste b d) = paste a d"
  by (simp add: paste_def)

lemma copy_row_closed:
  assumes "1 \<le> r" "1 \<le> r + offset" "\<forall>c\<in>set cols. 1 \<le> c"
  shows "for_each (copy_cell offset) (map (\<lambda>c. (r, c)) cols) sheet =
           (None, sheet\<lparr>cells := copied_row offset r cols (cells sheet)\<rparr>)"
  using assms
proof (induction cols arbitrary: sheet)
  case Nil
  show ?case by (simp add: copied_row_def)
next
  case (Cons c cols)
  have step: "copy_cell offset (r, c) sheet =
      (None, set_cell (r + offset, c) (paste (cells sheet (r, c))) sheet)"
    using Cons.prems by (simp add: copy_cell_def)
  have eq: "copied_row offset r cols
       (cells (set_cell (r + offset, c) (paste (cells sheet (r, c))) sheet)) =
     copied_row offset r (c # cols) (cells sheet)"
    by (auto simp: copied_row_def set_cell_def fun_eq_iff)
  show ?case
    using Cons.prems
    by (simp add: step Cons.IH eq) (simp add: set_cell_def)
qed

text \<open>The rows are copied in ascending order.  A row that is read has not been written
  before when the offset is not positive, or is larger than the height of the range.\<close>

lemma copy_rows_closed:
  assumes "1 \<le> a" "1 \<le> a + offset" "1 \<le> lo" "offset \<le> 0 \<or> b - a < offset"
  shows "for_each (\<lambda>row. for_each (copy_cell offset) row)
           (map (\<lambda>r. map (\<lambda>c. (r, c)) [lo..hi]) [a..b]) sheet =
         (None, sheet\<lparr>cells := copied_cells offset
            \<lparr>min_col = lo, min_row = a, max_col = hi, max_row = b\<rparr> (cells sheet)\<rparr>)"
  using assms
proof (induction a b arbitrary: sheet rule: upto.induct)
  case (1 a b)
  show ?case
  proof (cases "a \<le> b")
    case False
    then have "[a..b] = []" by simp
    moreover from False have "copied_cells offset
        \<lparr>min_col = lo, min_row = a, max_col = hi, max_row = b\<rparr> (cells sheet) = cells sheet"
      by (auto simp: copied_cells_def fun_eq_iff)
    ultimately show ?thesis by simp
  next
    case True
    then have up: "[a..b] = a # [a + 1..b]" by (simp add: upto_rec1)
    let ?s1 = "sheet\<lparr>cells := copied_row offset a [lo..hi] (cells sheet)\<rparr>"
    have row: "for_each (copy_cell offset) (map (\<lambda>c. (a, c)) [lo..hi]) sheet = (None, ?s1)"
      using "1.prems" by (intro copy_row_closed) auto
    have rest: "for_each (\<lambda>row. for_each (copy_cell offset) row)
           (map (\<lambda>r. map (\<lambda>c. (r, c)) [lo..hi]) [a + 1..b]) ?s1 =
         (None, ?s1\<lparr>cells := copied_cells offset
            \<lparr>min_col = lo, min_row = a + 1, max_col = hi, max_row = b\<rparr> (cells ?s1)\<rparr>)"
      using True "1.prems" by (intro "1.IH") auto
    have eq: "copied_cells offset \<lparr>min_col = lo, min_row = a + 1, max_col = hi, max_row = b\<rparr>
          (copied_row offset a [lo..hi] (cells sheet)) =
        copied_cells offset \<lparr>min_col = lo, min_row = a, max_col = hi, max_row = b\<rparr> (cells sheet)"
      using "1.prems"(4) True
      by (auto simp: copied_cells_def copied_row_def fun_eq_iff)
    show ?thesis
      unfolding up by (simp add: row rest eq)
  qed
qed

lemma copy_range_closed:
  assumes "1 \<le> min_row rg" "1 \<le> min_row rg + offset" "1 \<le> min_col rg"
    and "offset \<le> 0 \<or> max_row rg - min_row rg < offset"
  shows "copy_range rg sheet offset =
           (None, sheet\<lparr>cells := copied_cells offset rg (cells sheet)\<rparr>)"
proof -
  have c: "copied_cells offset rg = copied_cells offset
     \<lparr>min_col = min_col rg, min_row = min_row rg, max_col = max_col rg, max_row = max_row rg\<rparr>"
    by (simp add: copied_cells_def fun_eq_iff)
  show ?thesis
    unfolding copy_range_def rows_from_range_def c
    using assms by (intro copy_rows_closed)
qed

text \<open>
  Claim C9, as stated: for every range and every offset each destination cell receives
  the value and style of its source cell.  With the three-row range A1:A3 and an offset
  of 1 the destination A3 of the source A2 does not receive the \<open>y\<close> of A2: A2 is
  overwritten with the \<open>x\<close> of A1 before it is read, and A3 ends with \<open>x\<close>.
\<close>

theorem copy_range_overlap_counterexample:
  "fst (copy_range range_A1_A3 xyz_sheet 1) = None \<and>
   cvalue (cells xyz_sheet (2, 1)) = VStr ''y'' \<and>
   cvalue (cells (snd (copy_range range_A1_A3 xyz_sheet 1)) (3, 1)) = VStr ''x''"
  by (simp add: copy_range_def rows_from_range_def range_A1_A3_def xyz_sheet_def
        copy_cell_def set_cell_def paste_def upto_rec1 Let_def)

text \<open>
  Claim C9, amended.  For a range whose rows and columns start at 1 or above, and an
  offset that keeps the first destination row at 1 or above and is either not positive
  or larger than the height of the range less one (so that no row is read after it was
  written; every one-row range with any such offset is of this kind), \<^verbatim>\<open>copy_range\<close>
  returns, each destination cell holds the value, font, alignment, border, fill and
  number format that its source cell had before the call, no cell outside the
  destination region has changed, and the tables are the same.
\<close>

theorem copy_range_effect:
  assumes "1 \<le> min_row rg" and "1 \<le> min_col rg" and "1 \<le> min_row rg + offset"
    and "offset \<le> 0 \<or> max_row rg - min_row rg < offset"
  shows "\<exists>sheet'. copy_range rg sheet offset = (None, sheet') \<and>
           tables sheet' = tables sheet \<and>
           (\<forall>r c. min_row rg \<le> r \<and> r \<le> max_row rg \<and> min_col rg \<le> c \<and> c \<le> max_col rg \<longrightarrow>
              cvalue (cells sheet' (r + offset, c)) = cvalue (cells sheet (r, c)) \<and>
              font (cells sheet' (r + offset, c)) = font (cells sheet (r, c)) \<and>
              alignment (cells sheet' (r + offset, c)) = alignment (cells sheet (r, c)) \<and>
              border (cells sheet' (r + offset, c)) = border (cells sheet (r, c)) \<and>
              fill (cells sheet' (r + offset, c)) = fill (cells sheet (r, c)) \<and>
              number_format (cells sheet' (r + offset, c)) = number_format (cells sheet (r, c))) \<and>
           (\<forall>r c. \<not> (min_row rg + offset \<le> r \<and> r \<le> max_row rg + offset \<and>
                      min_col rg \<le> c \<and> c \<le> max_col rg) \<longrightarrow>
              cells sheet' (r, c) = cells sheet (r, c))"
proof -
  have "copy_range rg sheet offset =
          (None, sheet\<lparr>cells := copied_cells offset rg (cells sheet)\<rparr>)"
    using assms by (intro copy_range_closed)
  then show ?thesis
    by (simp add: copied_cells_def paste_def)
qed

theorem copy_range_effect_witness:
  "fst (copy_range range_A1_A3 xyz_sheet 3) = None \<and>
   cvalue (cells (snd (copy_range range_A1_A3 xyz_sheet 3)) (5, 1)) = VStr ''y'' \<and>
   cvalue (cells (snd (copy_range range_A1_A3 xyz_sheet 3)) (2, 1)) = VStr ''y''"
proof -
  have "1 \<le> min_row range_A1_A3" "1 \<le> min_col range_A1_A3" "1 \<le> min_row range_A1_A3 + 3"
    "(3::int) \<le> 0 \<or> max_row range_A1_A3 - min_row range_A1_A3 < 3"
    by (simp_all add: range_A1_A3_def)
  from copy_range_effect [OF this, of xyz_sheet]
  obtain sheet' where r: "copy_range range_A1_A3 xyz_sheet 3 = (None, sheet')"
    and src: "\<forall>r c. min_row range_A1_A3 \<le> r \<and> r \<le> max_row range_A1_A3 \<and>
                min_col range_A1_A3 \<le> c \<and> c \<le> max_col range_A1_A3 \<longrightarrow>
              cvalue (cells sheet' (r + 3, c)) = cvalue (cells xyz_sheet (r, c))"
    and frame: "\<forall>r c. \<not> (min_row range_A1_A3 + 3 \<le> r \<and> r \<le> max_row range_A1_A3 + 3 \<and>
                      min_col range_A1_A3 \<le> c \<and> c \<le> max_col range_A1_A3) \<longrightarrow>
              cells sheet' (r, c) = cells xyz_sheet (r, c)"
    by blast
  have "cvalue (cells sheet' (2 + 3, 1)) = cvalue (cells xyz_sheet (2, 1))"
    using src [rule_format, of 2 1] by (simp add: range_A1_A3_def)
  moreover have "cells sheet' (2, 1) = cells xyz_sheet (2, 1)"
    using frame [rule_format, of 2 1] by (simp add: range_A1_A3_def)
  moreover have "cvalue (cells xyz_sheet (2, 1)) = VStr ''y''"
    by (simp add: xyz_sheet_def)
  ultimately show ?thesis
    by (simp add: r)
qed

section \<open>Validation\<close>

text \<open>Whatever \<^verbatim>\<open>_check_is_template\<close> raises, \<^verbatim>\<open>__init__\<close> stops there: the workbook is as it
  was loaded and nothing has been saved.\<close>

lemma COA_init_check_error:
  "check_is_template (loaded template) = Some e \<Longrightarrow>
   COA_init lib template csv = (Some e, loaded template)"
  by (simp add: COA_init_def)

lemma check_is_template_shape_error:
  assumes "check1_fails template \<or> check2_fails template \<or> check3_fails template"
  shows "check_is_template (loaded template) = Some (shape_error template)"
proof (cases template)
  case Nil
  with assms show ?thesis
    by (simp add: check1_fails_def check2_fails_def check3_fails_def)
next
  case (Cons p others)
  obtain title sheet where p: "p = (title, sheet)" by (cases p)
  show ?thesis
  proof (cases "title = ''NSF COA Template''")
    case False
    then show ?thesis
      by (simp add: Cons p check_is_template_def loaded_def shape_error_def check1_fails_def
            TEMPLATE_SHEET_def)
  next
    case True
    note title = this
    show ?thesis
    proof (cases "cvalue (cells sheet (52, 2)) = VStr ''Alphaman, Lin''")
      case False
      with title show ?thesis
        by (simp add: Cons p check_is_template_def loaded_def shape_error_def check1_fails_def
              check2_fails_def module_constants)
    next
      case True
      note person = this
      show ?thesis
      proof (cases "map_of (tables sheet) ''TableD''")
        case None
        with title person show ?thesis
          by (simp add: Cons p check_is_template_def loaded_def shape_error_def
                check1_fails_def check2_fails_def table_missing_def module_constants)
      next
        case (Some t)
        with assms title person have "ref t \<noteq> ''A51:E56''"
          by (simp add: Cons p check1_fails_def check2_fails_def check3_fails_def)
        with Some title person show ?thesis
          by (simp add: Cons p check_is_template_def loaded_def shape_error_def
                check1_fails_def check2_fails_def table_missing_def module_constants)
      qed
    qed
  qed
qed

text \<open>
  Claim C1, as stated: whenever one of the three checks fails, the error raised is the
  descriptive one that names the failed check.  A template whose sheet has no table
  \<open>TableD\<close> fails the third check, and what is raised is the \<open>KeyError\<close> of the table
  lookup, not the message of the third check.
\<close>

theorem shape_check_descriptive_counterexample:
  "check3_fails untabled_template \<and>
   fst (COA_init no_rows_moved untabled_template []) = Some (KeyError ''TableD'') \<and>
   fst (COA_init no_rows_moved untabled_template []) \<noteq> Some (shape_error_spec untabled_template)"
proof -
  have c: "check3_fails untabled_template" "\<not> check1_fails untabled_template"
    "\<not> check2_fails untabled_template" "table_missing untabled_template"
    by (simp_all add: check1_fails_def check2_fails_def check3_fails_def table_missing_def
          untabled_template_def template_cells_def)
  then have "check_is_template (loaded untabled_template) = Some (shape_error untabled_template)"
    by (intro check_is_template_shape_error) simp
  then have "COA_init no_rows_moved untabled_template [] =
      (Some (shape_error untabled_template), loaded untabled_template)"
    by (rule COA_init_check_error)
  with c show ?thesis
    by (simp add: shape_error_def shape_error_spec_def)
qed

text \<open>
  Claim C1, amended.  If the first sheet is not named \<open>NSF COA Template\<close>, or cell B52 of
  that sheet is not \<open>Alphaman, Lin\<close>, or the sheet has no table \<open>TableD\<close> with the range
  \<open>A51:E56\<close>, then \<^verbatim>\<open>__init__\<close> raises an error for the first check that fails: the
  \<open>ValueError\<close> with the message of that check, except that a missing table \<open>TableD\<close>
  raises \<open>KeyError\<close> with the table's name.  At that moment the workbook is the template
  as loaded and no output file has been written.
\<close>

theorem shape_check_fails_before_mutation:
  assumes "check1_fails template \<or> check2_fails template \<or> check3_fails template"
  shows "COA_init lib template csv =
           (Some (shape_error template),
            \<lparr>wb = template, wb_alt = template, df = [], out_file = None\<rparr>)"
proof -
  have "check_is_template (loaded template) = Some (shape_error template)"
    using assms by (rule check_is_template_shape_error)
  then have "COA_init lib template csv = (Some (shape_error template), loaded template)"
    by (rule COA_init_check_error)
  then show ?thesis by (simp add: loaded_def)
qed

theorem shape_check_fails_before_mutation_witness:
  "check1_fails renamed_template \<and>
   COA_init no_rows_moved renamed_template [] =
     (Some (ValueError ''The first sheet of the workbook is not the NSF COA template''),
      \<lparr>wb = renamed_template, wb_alt = renamed_template, df = [], out_file = None\<rparr>) \<and>
   check2_fails edited_template \<and>
   COA_init no_rows_moved edited_template [] =
     (Some (ValueError ''The first row of the table 4 is not the template person''),
      \<lparr>wb = edited_template, wb_alt = edited_template, df = [], out_file = None\<rparr>) \<and>
   check3_fails moved_template \<and>
   COA_init no_rows_moved moved_template [] =
     (Some (ValueError ''The table 4 is not in the correct location''),
      \<lparr>wb = moved_template, wb_alt = moved_template, df = [], out_file = None\<rparr>) \<and>
   check3_fails untabled_template \<and>
   COA_init no_rows_moved untabled_template [] =
     (Some (KeyError ''TableD''),
      \<lparr>wb = untabled_template, wb_alt = untabled_template, df = [], out_file = None\<rparr>)"
proof -
  have c1: "check1_fails renamed_template"
    by (simp add: check1_fails_def renamed_template_def)
  have c2: "check2_fails edited_template" "\<not> check1_fails edited_template"
    by (simp_all add: check1_fails_def check2_fails_def edited_template_def)
  have c3: "check3_fails moved_template" "\<not> check1_fails moved_template"
    "\<not> check2_fails moved_template" "\<not> table_missing moved_template"
    by (simp_all add: check1_fails_def check2_fails_def check3_fails_def table_missing_def
          moved_template_def template_cells_def)
  have c4: "check3_fails untabled_template" "\<not> check1_fails untabled_template"
    "\<not> check2_fails untabled_template" "table_missing untabled_template"
    by (simp_all add: check1_fails_def check2_fails_def check3_fails_def table_missing_def
          untabled_template_def template_cells_def)
  have "check1_fails renamed_template \<or> check2_fails renamed_template \<or>
        check3_fails renamed_template" using c1 by simp
  note r1 = shape_check_fails_before_mutation [OF this, of no_rows_moved "[]"]
  have "check1_fails edited_template \<or> check2_fails edited_template \<or>
        check3_fails edited_template" using c2 by simp
  note r2 = shape_check_fails_before_mutation [OF this, of no_rows_moved "[]"]
  have "check1_fails moved_template \<or> check2_fails moved_template \<or>
        check3_fails moved_template" using c3 by simp
  note r3 = shape_check_fails_before_mutation [OF this, of no_rows_moved "[]"]
  have "check1_fails untabled_template \<or> check2_fails untabled_template \<or>
        check3_fails untabled_template" using c4 by simp
  note r4 = shape_check_fails_before_mutation [OF this, of no_rows_moved "[]"]
  show ?thesis
    using c1 c2 c3 c4 r1 r2 r3 r4 by (simp add: shape_error_def)
qed

section \<open>The stages of the expansion\<close>

lemma run_stages_Nil: "run_stages [] s = (None, s)"
  by (simp add: run_stages_def)

lemma run_stages_Cons:
  "run_stages (f # fs) s =
     (case f s of (None, s') \<Rightarrow> run_stages fs s' | (Some e, s') \<Rightarrow> (Some e, s'))"
  by (cases "f s") (auto simp: run_stages_def split: option.splits)

lemma tables_set_value [simp]: "tables (set_value r c v s) = tables s"
  by (simp add: set_value_def set_cell_def)

lemma cells_set_value:
  "cells (set_value r c v s) = (cells s)((r, c) := (cells s (r, c))\<lparr>cvalue := v\<rparr>)"
  by (simp add: set_value_def set_cell_def)

lemma tables_fold:
  "(\<And>x s. tables (f x s) = tables s) \<Longrightarrow> tables (fold f xs s) = tables s"
  by (induction xs arbitrary: s) auto

lemma tables_clear_first_rows: "tables (clear_first_rows s) = tables s"
  unfolding clear_first_rows_def by (intro tables_fold) simp

lemma copy_one_row:
  assumes "1 \<le> r" "1 \<le> r + offset"
  shows "copy_range (row_A_to_E r) s offset =
           (None, s\<lparr>cells := copied_cells offset (row_A_to_E r) (cells s)\<rparr>)"
  using assms by (intro copy_range_closed) (auto simp: row_A_to_E_def)

lemma copy_last_row_ok:
  assumes "- 5 \<le> n"
  shows "\<exists>s'. copy_last_row n s = (None, s') \<and> tables s' = tables s"
  unfolding copy_last_row_def using assms
  by (subst copy_one_row) (simp_all add: module_constants)

lemma tables_insert_author_rows: "tables (insert_author_rows lib n s) = tables s"
  by (simp add: insert_author_rows_def insert_rows_def)

lemma style_rows_ok:
  "\<exists>s'. for_each (\<lambda>i s. copy_range (row_A_to_E TABLE4_START_ROW) s (1 + int i)) ns s = (None, s')
        \<and> tables s' = tables s"
proof (induction ns arbitrary: s)
  case Nil
  show ?case by simp
next
  case (Cons i ns)
  have "copy_range (row_A_to_E TABLE4_START_ROW) s (1 + int i) =
      (None, s\<lparr>cells := copied_cells (1 + int i) (row_A_to_E TABLE4_START_ROW) (cells s)\<rparr>)"
    by (intro copy_one_row) (simp_all add: module_constants)
  then show ?case using Cons.IH [of "s\<lparr>cells := copied_cells (1 + int i) (row_A_to_E TABLE4_START_ROW) (cells s)\<rparr>"]
    by auto
qed

lemma style_new_rows_ok: "\<exists>s'. style_new_rows n s = (None, s') \<and> tables s' = tables s"
  unfolding style_new_rows_def by (rule style_rows_ok)

lemma write_author_ok:
  assumes "permute_date (date row) = Inr d"
  shows "write_author (i, row) s =
     (None, s\<lparr>cells := (cells s)
        ((TABLE4_START_ROW + int i, 1) := (cells s (TABLE4_START_ROW + int i, 1))\<lparr>cvalue := VStr ''A:''\<rparr>,
         (TABLE4_START_ROW + int i, 2) := (cells s (TABLE4_START_ROW + int i, 2))\<lparr>cvalue := VStr (author row)\<rparr>,
         (TABLE4_START_ROW + int i, 3) := (cells s (TABLE4_START_ROW + int i, 3))\<lparr>cvalue := VStr (affil row)\<rparr>,
         (TABLE4_START_ROW + int i, 4) := (cells s (TABLE4_START_ROW + int i, 4))\<lparr>cvalue := VStr []\<rparr>,
         (TABLE4_START_ROW + int i, 5) := (cells s (TABLE4_START_ROW + int i, 5))\<lparr>cvalue := VStr d\<rparr>)\<rparr>)"
  using assms by (simp add: write_author_def Let_def set_value_def set_cell_def)

lemma write_author_frame:
  assumes "write_author (i, row) s = (e, s')"
  shows "tables s' = tables s"
    and "r \<noteq> TABLE4_START_ROW + int i \<Longrightarrow> cells s' (r, c) = cells s (r, c)"
  using assms
  by (auto simp: write_author_def Let_def set_value_def set_cell_def split: sum.splits)

lemma write_authors_frame:
  assumes "for_each write_author (enumerate n rows) s = (e, s')"
  shows "tables s' = tables s \<and>
         (\<forall>r c. r < TABLE4_START_ROW + int n \<longrightarrow> cells s' (r, c) = cells s (r, c))"
  using assms
proof (induction rows arbitrary: n s)
  case Nil
  then show ?case by simp
next
  case (Cons row rows)
  obtain e1 s1 where w: "write_author (n, row) s = (e1, s1)"
    by (cases "write_author (n, row) s")
  note f = write_author_frame [OF w]
  show ?case
  proof (cases e1)
    case (Some err)
    with Cons.prems w have "s' = s1" by simp
    with f show ?thesis by simp
  next
    case None
    with Cons.prems w have "for_each write_author (enumerate (Suc n) rows) s1 = (e, s')"
      by simp
    from Cons.IH [OF this] f show ?thesis by simp
  qed
qed

lemma write_authors_ok:
  assumes "\<forall>row\<in>set rows. 2 \<le> count_list (date row) CHR ''/''"
  shows "\<exists>s'. for_each write_author (enumerate n rows) s = (None, s') \<and>
           (\<forall>i<length rows. row_holds s' (TABLE4_START_ROW + int (n + i)) (rows ! i))"
  using assms
proof (induction rows arbitrary: n s)
  case Nil
  show ?case by simp
next
  case (Cons row rows)
  from Cons.prems obtain d where d: "permute_date (date row) = Inr d"
    using permute_date_Inr_iff [of "date row"] by auto
  obtain s1 where w1: "write_author (n, row) s = (None, s1)"
    and head: "cvalue (cells s1 (TABLE4_START_ROW + int n, 1)) = VStr ''A:''"
    "cvalue (cells s1 (TABLE4_START_ROW + int n, 2)) = VStr (author row)"
    "cvalue (cells s1 (TABLE4_START_ROW + int n, 3)) = VStr (affil row)"
    "cvalue (cells s1 (TABLE4_START_ROW + int n, 4)) = VStr []"
    "cvalue (cells s1 (TABLE4_START_ROW + int n, 5)) = VStr d"
    using write_author_ok [OF d, of n s] by simp
  from Cons.prems have "\<forall>row\<in>set rows. 2 \<le> count_list (date row) CHR ''/''" by simp
  from Cons.IH [OF this, of "Suc n" s1]
  obtain s' where run: "for_each write_author (enumerate (Suc n) rows) s1 = (None, s')"
    and vals: "\<forall>i<length rows. row_holds s' (TABLE4_START_ROW + int (Suc n + i)) (rows ! i)"
    by blast
  have keep: "cells s' (TABLE4_START_ROW + int n, c) = cells s1 (TABLE4_START_ROW + int n, c)" for c
    using write_authors_frame [OF run] by simp
  have "for_each write_author (enumerate n (row # rows)) s = (None, s')"
    using w1 run by simp
  moreover have "row_holds s' (TABLE4_START_ROW + int (n + i)) ((row # rows) ! i)"
    if "i < length (row # rows)" for i
  proof (cases i)
    case 0
    then show ?thesis using head keep d by (simp add: row_holds_def)
  next
    case (Suc j)
    with that have "j < length rows" by simp
    with vals have "row_holds s' (TABLE4_START_ROW + int (Suc n + j)) (rows ! j)"
      by blast
    then show ?thesis using Suc by simp
  qed
  ultimately show ?case by blast
qed

lemma write_authors_result:
  assumes "\<forall>row\<in>set rows. 2 \<le> count_list (date row) CHR ''/''"
  shows "\<exists>s'. write_authors rows s = (None, s') \<and> tables s' = tables s \<and>
           (\<forall>i<length rows. row_holds s' (TABLE4_START_ROW + int i) (rows ! i))"
proof -
  from write_authors_ok [OF assms, of 0 s]
  obtain s' where run: "for_each write_author (enumerate 0 rows) s = (None, s')"
    and vals: "\<forall>i<length rows. row_holds s' (TABLE4_START_ROW + int (0 + i)) (rows ! i)"
    by blast
  from write_authors_frame [OF run] have "tables s' = tables s" by simp
  with run vals show ?thesis by (simp add: write_authors_def)
qed

lemma duplicate_name_Cons:
  "duplicate_name ((title, s) # others) k \<longleftrightarrow>
     k \<in> fst ` set (tables s) \<or> duplicate_name others k"
  by (auto simp: duplicate_name_def)

lemma readd_table_ok:
  assumes "map_of (tables s) k = Some t0"
    and "get_table (wb_alt self) TEMPLATE_SHEET k = Inr t"
    and "name t = k"
    and "wb self = (TEMPLATE_SHEET, sheet0) # others"
    and "\<not> duplicate_name others k"
  shows "readd_table self k new_ref s =
           (None, s\<lparr>tables := AList.update k
              \<lparr>displayName = displayName t, name = k, ref = new_ref\<rparr>
              (AList.delete k (tables s))\<rparr>)"
  using assms
  by (simp add: readd_table_def del_table_def add_table_def duplicate_name_Cons
        AList.delete_notin_dom)

lemma row_holds_tables [simp]: "row_holds (s\<lparr>tables := ts\<rparr>) r row = row_holds s r row"
  by (simp add: row_holds_def split: sum.splits)

lemma valid_templateD:
  assumes "valid_template template"
  obtains sheet others tD tD5 where "template = (TEMPLATE_SHEET, sheet) # others"
    and "cvalue (cells sheet (TABLE4_START_ROW, 2)) = VStr TABLE4_TEMPLATE_PERSON"
    and "map_of (tables sheet) ''TableD'' = Some tD" and "ref tD = ''A51:E56''"
    and "name tD = ''TableD''"
    and "map_of (tables sheet) ''TableD5'' = Some tD5" and "name tD5 = ''TableD5''"
    and "\<not> duplicate_name others ''TableD''" and "\<not> duplicate_name others ''TableD5''"
proof (cases template)
  case Nil
  with assms show thesis by (simp add: valid_template_def)
next
  case (Cons p others)
  obtain title sheet where p: "p = (title, sheet)" by (cases p)
  from assms have v: "title = ''NSF COA Template''"
    "cvalue (cells sheet (52, 2)) = VStr ''Alphaman, Lin''"
    "(case map_of (tables sheet) ''TableD'' of
        None \<Rightarrow> False | Some t \<Rightarrow> ref t = ''A51:E56'' \<and> name t = ''TableD'')"
    "(case map_of (tables sheet) ''TableD5'' of
        None \<Rightarrow> False | Some t \<Rightarrow> name t = ''TableD5'')"
    "\<not> duplicate_name others ''TableD''" "\<not> duplicate_name others ''TableD5''"
    unfolding valid_template_def Cons p by simp_all
  from v(3) obtain tD where tD: "map_of (tables sheet) ''TableD'' = Some tD"
    "ref tD = ''A51:E56''" "name tD = ''TableD''"
    by (cases "map_of (tables sheet) ''TableD''") simp_all
  from v(4) obtain tD5 where tD5: "map_of (tables sheet) ''TableD5'' = Some tD5"
    "name tD5 = ''TableD5''"
    by (cases "map_of (tables sheet) ''TableD5''") simp_all
  have "template = (TEMPLATE_SHEET, sheet) # others"
    by (simp add: Cons p v(1) TEMPLATE_SHEET_def)
  moreover have "cvalue (cells sheet (TABLE4_START_ROW, 2)) = VStr TABLE4_TEMPLATE_PERSON"
    by (simp add: v(2) TABLE4_START_ROW_def TABLE4_TEMPLATE_PERSON_def)
  ultimately show thesis using tD tD5 v(5,6) by (rule that)
qed

lemma valid_template_check:
  assumes "valid_template template"
  shows "check_is_template (loaded template) = None"
proof -
  from assms obtain sheet others tD where "template = (TEMPLATE_SHEET, sheet) # others"
    and "cvalue (cells sheet (TABLE4_START_ROW, 2)) = VStr TABLE4_TEMPLATE_PERSON"
    and "map_of (tables sheet) ''TableD'' = Some tD" and "ref tD = ''A51:E56''"
    by (rule valid_templateD)
  then show ?thesis
    by (simp add: check_is_template_def loaded_def)
qed

lemma expand_sheet_valid:
  assumes wbs: "wb self = (TEMPLATE_SHEET, sheet) # others" "wb_alt self = wb self"
    and tD: "map_of (tables sheet) ''TableD'' = Some tD" "name tD = ''TableD''"
    and tD5: "map_of (tables sheet) ''TableD5'' = Some tD5" "name tD5 = ''TableD5''"
    and dup: "\<not> duplicate_name others ''TableD''" "\<not> duplicate_name others ''TableD5''"
    and dates: "well_formed (df self)"
  shows "\<exists>sheet'. expand_sheet lib self sheet = (None, sheet') \<and>
           (\<forall>i<length (df self). row_holds sheet' (TABLE4_START_ROW + int i) (df self ! i)) \<and>
           map_of (tables sheet') ''TableD'' =
             Some \<lparr>displayName = displayName tD, name = ''TableD'',
                    ref = ref_TableD (int (length (df self)) - 5)\<rparr> \<and>
           map_of (tables sheet') ''TableD5'' =
             Some \<lparr>displayName = displayName tD5, name = ''TableD5'',
                    ref = ref_TableD5 (int (length (df self)) - 5)\<rparr>"
proof -
  define n where "n = int (length (df self)) - 5"
  have n: "- 5 \<le> n" by (simp add: n_def)
  let ?s1 = "clear_first_rows sheet"
  obtain s2 where s2: "copy_last_row n ?s1 = (None, s2)" "tables s2 = tables ?s1"
    using copy_last_row_ok [OF n] by blast
  let ?s3 = "insert_author_rows lib n s2"
  obtain s4 where s4: "style_new_rows n ?s3 = (None, s4)" "tables s4 = tables ?s3"
    using style_new_rows_ok by blast
  have "\<forall>row\<in>set (df self). 2 \<le> count_list (date row) CHR ''/''"
    using dates by (simp add: well_formed_def list_all_iff)
  from write_authors_result [OF this, of s4]
  obtain s5 where s5: "write_authors (df self) s4 = (None, s5)" "tables s5 = tables s4"
    and rows: "\<forall>i<length (df self). row_holds s5 (TABLE4_START_ROW + int i) (df self ! i)"
    by blast
  have t5: "tables s5 = tables sheet"
    using s5 s4 s2 by (simp add: tables_insert_author_rows tables_clear_first_rows)
  have g: "get_table (wb_alt self) TEMPLATE_SHEET ''TableD5'' = Inr tD5"
    "get_table (wb_alt self) TEMPLATE_SHEET ''TableD'' = Inr tD"
    using wbs tD tD5 by (simp_all add: get_table_def)
  define n5 where "n5 = \<lparr>displayName = displayName tD5, name = ''TableD5'', ref = ref_TableD5 n\<rparr>"
  define nD where "nD = \<lparr>displayName = displayName tD, name = ''TableD'', ref = ref_TableD n\<rparr>"
  define s6 where
    "s6 = s5\<lparr>tables := AList.update ''TableD5'' n5 (AList.delete ''TableD5'' (tables s5))\<rparr>"
  define s7 where
    "s7 = s6\<lparr>tables := AList.update ''TableD'' nD (AList.delete ''TableD'' (tables s6))\<rparr>"
  have r5: "readd_table self ''TableD5'' (ref_TableD5 n) s5 = (None, s6)"
    unfolding s6_def n5_def
    using tD5 t5 g(1) wbs(1) dup(2) by (intro readd_table_ok) simp_all
  have m6: "map_of (tables s6) ''TableD'' = Some tD"
    using tD t5 by (simp add: s6_def AList.update_conv' AList.delete_conv')
  have rD: "readd_table self ''TableD'' (ref_TableD n) s6 = (None, s7)"
    unfolding s7_def nD_def
    using m6 tD(2) g(2) wbs(1) dup(1) by (intro readd_table_ok)
  have run: "expand_sheet lib self sheet = (None, s7)"
    unfolding expand_sheet_def Let_def NUMBER_OF_EXISTING_ROWS_IN_TABLE4_def n_def [symmetric]
    by (simp add: run_stages_Cons run_stages_Nil returning_def s2(1) s4(1) s5(1) r5 rD)
  have mD: "map_of (tables s7) ''TableD'' = Some nD"
    by (simp add: s7_def AList.update_conv')
  have m5: "map_of (tables s7) ''TableD5'' = Some n5"
    by (simp add: s7_def s6_def AList.update_conv' AList.delete_conv')
  have rows7: "\<forall>i<length (df self). row_holds s7 (TABLE4_START_ROW + int i) (df self ! i)"
    using rows by (simp add: s7_def s6_def)
  show ?thesis
  proof (intro exI conjI)
    show "expand_sheet lib self sheet = (None, s7)" by (rule run)
    show "\<forall>i<length (df self). row_holds s7 (TABLE4_START_ROW + int i) (df self ! i)"
      by (rule rows7)
    show "map_of (tables s7) ''TableD'' =
        Some \<lparr>displayName = displayName tD, name = ''TableD'',
               ref = ref_TableD (int (length (df self)) - 5)\<rparr>"
      using mD unfolding nD_def n_def .
    show "map_of (tables s7) ''TableD5'' =
        Some \<lparr>displayName = displayName tD5, name = ''TableD5'',
               ref = ref_TableD5 (int (length (df self)) - 5)\<rparr>"
      using m5 unfolding n5_def n_def .
  qed
qed

section \<open>A whole run on a valid template\<close>

lemma COA_init_valid:
  assumes v: "valid_template template" and wf: "well_formed csv"
  shows "\<exists>self' sheet'. COA_init lib template csv = (None, self') \<and>
           output_sheet self' = Some sheet' \<and>
           (\<forall>i<length csv. row_holds sheet' (TABLE4_START_ROW + int i) (csv ! i)) \<and>
           table_ref sheet' ''TableD'' = Some (ref_TableD (int (length csv) - 5)) \<and>
           table_ref sheet' ''TableD5'' = Some (ref_TableD5 (int (length csv) - 5))"
proof -
  from v obtain sheet others tD tD5 where t: "template = (TEMPLATE_SHEET, sheet) # others"
    and tD: "map_of (tables sheet) ''TableD'' = Some tD" "name tD = ''TableD''"
    and tD5: "map_of (tables sheet) ''TableD5'' = Some tD5" "name tD5 = ''TableD5''"
    and dup: "\<not> duplicate_name others ''TableD''" "\<not> duplicate_name others ''TableD5''"
    by (rule valid_templateD)
  define self where "self = (loaded template)\<lparr>df := csv\<rparr>"
  have self: "wb self = (TEMPLATE_SHEET, sheet) # others" "wb_alt self = wb self"
    "df self = csv"
    by (simp_all add: self_def loaded_def t)
  have "well_formed (df self)" using wf self by simp
  from expand_sheet_valid [OF self(1,2) tD tD5 dup this, of lib]
  obtain sheet' where run: "expand_sheet lib self sheet = (None, sheet')"
    and rows: "\<forall>i<length csv. row_holds sheet' (TABLE4_START_ROW + int i) (csv ! i)"
    and mD: "map_of (tables sheet') ''TableD'' =
             Some \<lparr>displayName = displayName tD, name = ''TableD'',
                    ref = ref_TableD (int (length csv) - 5)\<rparr>"
    and m5: "map_of (tables sheet') ''TableD5'' =
             Some \<lparr>displayName = displayName tD5, name = ''TableD5'',
                    ref = ref_TableD5 (int (length csv) - 5)\<rparr>"
    unfolding self(3) by blast
  define self' where "self' = self\<lparr>wb := (TEMPLATE_SHEET, sheet') # others,
    out_file := Some ((TEMPLATE_SHEET, sheet') # others)\<rparr>"
  have add: "add_author_affiliations lib self =
      (None, self\<lparr>wb := (TEMPLATE_SHEET, sheet') # others\<rparr>)"
    by (simp add: add_author_affiliations_def self(1) run)
  have "check_is_template (loaded template) = None"
    using v by (rule valid_template_check)
  then have init: "COA_init lib template csv = (None, self')"
    using add by (simp add: COA_init_def self_def [symmetric] self'_def)
  have out: "output_sheet self' = Some sheet'"
    by (simp add: output_sheet_def self'_def TEMPLATE_SHEET_def)
  show ?thesis
  proof (intro exI conjI)
    show "COA_init lib template csv = (None, self')" by (rule init)
    show "output_sheet self' = Some sheet'" by (rule out)
    show "\<forall>i<length csv. row_holds sheet' (TABLE4_START_ROW + int i) (csv ! i)" by (rule rows)
    show "table_ref sheet' ''TableD'' = Some (ref_TableD (int (length csv) - 5))"
      by (simp add: table_ref_def mD)
    show "table_ref sheet' ''TableD5'' = Some (ref_TableD5 (int (length csv) - 5))"
      by (simp add: table_ref_def m5)
  qed
qed

lemma row_holdsD:
  assumes "row_holds s r row"
  shows "cvalue (cells s (r, 1)) = VStr ''A:''"
    and "cvalue (cells s (r, 2)) = VStr (author row)"
    and "cvalue (cells s (r, 3)) = VStr (affil row)"
    and "cvalue (cells s (r, 4)) = VStr []"
    and "\<exists>yyyy mm dd rest. py_split CHR ''/'' (date row) = yyyy # mm # dd # rest \<and>
           cvalue (cells s (r, 5)) = VStr (mm @ ''/'' @ dd @ ''/'' @ yyyy)"
proof -
  from assms show "cvalue (cells s (r, 1)) = VStr ''A:''"
    and "cvalue (cells s (r, 2)) = VStr (author row)"
    and "cvalue (cells s (r, 3)) = VStr (affil row)"
    and "cvalue (cells s (r, 4)) = VStr []"
    by (simp_all add: row_holds_def)
  from assms obtain d where d: "permute_date (date row) = Inr d"
    and e: "cvalue (cells s (r, 5)) = VStr d"
    by (auto simp: row_holds_def split: sum.splits)
  from d obtain yyyy mm dd rest where "py_split CHR ''/'' (date row) = yyyy # mm # dd # rest"
    and "d = mm @ ''/'' @ dd @ ''/'' @ yyyy"
    by (auto simp: permute_date_cases split: list.splits)
  with e show "\<exists>yyyy mm dd rest. py_split CHR ''/'' (date row) = yyyy # mm # dd # rest \<and>
           cvalue (cells s (r, 5)) = VStr (mm @ ''/'' @ dd @ ''/'' @ yyyy)"
    by blast
qed

lemma str_int_51: "str_int 51 = ''51''"
  by (simp add: str_int_def str_nat.simps digit_char_def)

lemma ref_TableD_rows: "ref_TableD (int L - 5) = ''A51:E'' @ str_int (51 + int L)"
  by (simp add: ref_TableD_def module_constants str_int_51)

lemma ref_TableD5_rows:
  "ref_TableD5 (int L - 5) =
     ''A'' @ str_int (63 + (int L - 5)) @ '':E'' @ str_int (73 + (int L - 5))"
  by (simp add: ref_TableD5_def module_constants)

lemma valid_small_template: "valid_template small_template"
  by (simp add: valid_template_def small_template_def template_cells_def template_tables_def
        duplicate_name_def)

lemma well_formed_authors: "well_formed (authors names)"
  by (simp add: well_formed_def authors_def list_all_iff)

lemma well_formed_examples:
  "well_formed five_authors" "well_formed six_authors" "well_formed eight_authors"
  by (simp_all add: well_formed_def authors_def five_authors_def six_authors_def
        eight_authors_def)

text \<open>
  Claim C2.  For a valid template and well-formed records, \<open>L\<close> of them with \<open>L \<ge> 5\<close>, the
  run completes and in its output the table \<open>TableD\<close> has the range \<open>A51:E\<close>(51+L), that is
  the header row 51 and the \<open>L\<close> data rows 52 to 51+L, and for every \<open>i < L\<close> row 52+i
  holds \<open>A:\<close> in column A, the author of record \<open>i\<close> in B, its affiliation in C, the empty
  string in D, and in E its date \<open>YYYY/MM/DD\<close> reordered to \<open>MM/DD/YYYY\<close>.
\<close>

theorem expansion_fills_table:
  assumes "valid_template template" and "well_formed csv"
    and "5 \<le> length csv" and "i < length csv"
  shows "\<exists>self' sheet'. COA_init lib template csv = (None, self') \<and>
           output_sheet self' = Some sheet' \<and>
           table_ref sheet' ''TableD'' = Some (''A51:E'' @ str_int (51 + int (length csv))) \<and>
           cvalue (cells sheet' (52 + int i, 1)) = VStr ''A:'' \<and>
           cvalue (cells sheet' (52 + int i, 2)) = VStr (author (csv ! i)) \<and>
           cvalue (cells sheet' (52 + int i, 3)) = VStr (affil (csv ! i)) \<and>
           cvalue (cells sheet' (52 + int i, 4)) = VStr '''' \<and>
           (\<exists>yyyy mm dd rest. py_split CHR ''/'' (date (csv ! i)) = yyyy # mm # dd # rest \<and>
              cvalue (cells sheet' (52 + int i, 5)) = VStr (mm @ ''/'' @ dd @ ''/'' @ yyyy))"
proof -
  from COA_init_valid [OF assms(1,2), of lib]
  obtain self' sheet' where run: "COA_init lib template csv = (None, self')"
    and out: "output_sheet self' = Some sheet'"
    and rows: "\<forall>i<length csv. row_holds sheet' (TABLE4_START_ROW + int i) (csv ! i)"
    and tab: "table_ref sheet' ''TableD'' = Some (ref_TableD (int (length csv) - 5))"
    by blast
  from rows assms(4) have "row_holds sheet' (52 + int i) (csv ! i)"
    by (simp add: TABLE4_START_ROW_def)
  note cellsD = row_holdsD [OF this]
  from tab have "table_ref sheet' ''TableD'' = Some (''A51:E'' @ str_int (51 + int (length csv)))"
    by (simp only: ref_TableD_rows)
  with run out cellsD show ?thesis by blast
qed

theorem expansion_fills_table_witness:
  "valid_template small_template \<and> well_formed six_authors \<and> 5 \<le> length six_authors \<and>
   5 < length six_authors \<and>
   (\<exists>self' sheet'. COA_init no_rows_moved small_template six_authors = (None, self') \<and>
      output_sheet self' = Some sheet' \<and>
      table_ref sheet' ''TableD'' = Some ''A51:E57'' \<and>
      cvalue (cells sheet' (57, 1)) = VStr ''A:'' \<and>
      cvalue (cells sheet' (57, 2)) = VStr ''Lovelace, Ada'' \<and>
      cvalue (cells sheet' (57, 3)) = VStr ''AIRA'' \<and>
      cvalue (cells sheet' (57, 4)) = VStr '''' \<and>
      cvalue (cells sheet' (57, 5)) = VStr ''06/01/2022'')"
proof -
  have len: "5 \<le> length six_authors" "5 < length six_authors"
    by (simp_all add: six_authors_def five_authors_def authors_def)
  have row: "six_authors ! 5 = \<lparr>author = ''Lovelace, Ada'', affil = ''AIRA'', date = ''2022/06/01''\<rparr>"
    by (simp add: six_authors_def five_authors_def authors_def)
  have r: "str_int (51 + int (length six_authors)) = ''57''"
    by (simp add: six_authors_def five_authors_def authors_def str_int_def str_nat.simps
          digit_char_def)
  from expansion_fills_table [OF valid_small_template well_formed_examples(2) len,
      of no_rows_moved]
  show ?thesis
    using len valid_small_template well_formed_examples(2)
    by (simp add: row r)
qed

section \<open>The two tables\<close>

lemma output_table_ref_run:
  "run = (None, self') \<Longrightarrow> output_sheet self' = Some sheet' \<Longrightarrow>
   output_table_ref run k = table_ref sheet' k"
  by (simp add: output_table_ref_def)

text \<open>
  Claim C3, as stated: both tables are added again with their boundaries moved down by
  the number of inserted rows.  With eight records, three rows are inserted, and the
  range of \<open>TableD\<close> in the output is \<open>A51:E59\<close>: its first row has stayed at row 51 of the
  template's \<open>A51:E56\<close> and has not moved to row 54.
\<close>

theorem tables_shifted_counterexample:
  "output_table_ref (COA_init no_rows_moved small_template eight_authors) ''TableD'' =
     Some ''A51:E59'' \<and>
   output_table_ref (COA_init no_rows_moved small_template eight_authors) ''TableD'' \<noteq>
     Some (shifted_ref_spec 51 56 (int (length eight_authors) - 5))"
proof -
  from COA_init_valid [OF valid_small_template well_formed_examples(3), of no_rows_moved]
  obtain self' sheet' where
    run: "COA_init no_rows_moved small_template eight_authors = (None, self')"
    and out: "output_sheet self' = Some sheet'"
    and tab: "table_ref sheet' ''TableD'' = Some (ref_TableD (int (length eight_authors) - 5))"
    by blast
  have len: "length eight_authors = 8"
    by (simp add: eight_authors_def six_authors_def five_authors_def authors_def)
  have "ref_TableD (int (length eight_authors) - 5) = ''A51:E59''"
    unfolding ref_TableD_rows len
    by (simp add: str_int_def str_nat.simps digit_char_def)
  moreover have "shifted_ref_spec 51 56 (int (length eight_authors) - 5) = ''A54:E59''"
    unfolding len
    by (simp add: shifted_ref_spec_def str_int_def str_nat.simps digit_char_def)
  ultimately show ?thesis
    using output_table_ref_run [OF run out, of "''TableD''"] tab by simp
qed

text \<open>
  Claim C3, amended.  For a valid template and \<open>L \<ge> 5\<close> well-formed records, \<open>TableD\<close> is
  added again with the range \<open>A51:E\<close>(56+(L-5)): its last row is L-5 rows below row 56 of
  the template and its first row stays at row 51; \<open>TableD5\<close> is added again with the range
  \<open>A\<close>(63+(L-5))\<open>:E\<close>(73+(L-5)), both rows L-5 below the rows 63 and 73 that the program
  has as constants.
\<close>

theorem tables_readded:
  assumes "valid_template template" and "well_formed csv" and "5 \<le> length csv"
  shows "output_table_ref (COA_init lib template csv) ''TableD'' =
           Some (''A51:E'' @ str_int (56 + (int (length csv) - 5))) \<and>
         output_table_ref (COA_init lib template csv) ''TableD5'' =
           Some (''A'' @ str_int (63 + (int (length csv) - 5)) @
                 '':E'' @ str_int (73 + (int (length csv) - 5)))"
proof -
  from COA_init_valid [OF assms(1,2), of lib]
  obtain self' sheet' where run: "COA_init lib template csv = (None, self')"
    and out: "output_sheet self' = Some sheet'"
    and tD: "table_ref sheet' ''TableD'' = Some (ref_TableD (int (length csv) - 5))"
    and tD5: "table_ref sheet' ''TableD5'' = Some (ref_TableD5 (int (length csv) - 5))"
    by blast
  have "56 + (int (length csv) - 5) = 51 + int (length csv)" by simp
  then have "ref_TableD (int (length csv) - 5) =
      ''A51:E'' @ str_int (56 + (int (length csv) - 5))"
    by (simp only: ref_TableD_rows)
  with tD tD5 show ?thesis
    by (simp only: output_table_ref_run [OF run out] ref_TableD5_rows)
qed

theorem tables_readded_witness:
  "valid_template small_template \<and> well_formed eight_authors \<and> 5 \<le> length eight_authors \<and>
   output_table_ref (COA_init no_rows_moved small_template eight_authors) ''TableD'' =
     Some ''A51:E59'' \<and>
   output_table_ref (COA_init no_rows_moved small_template eight_authors) ''TableD5'' =
     Some ''A66:E76''"
proof -
  have len: "length eight_authors = 8"
    by (simp add: eight_authors_def six_authors_def five_authors_def authors_def)
  then have l5: "5 \<le> length eight_authors" by simp
  from tables_readded [OF valid_small_template well_formed_examples(3) l5, of no_rows_moved]
  show ?thesis
    using valid_small_template well_formed_examples(3) l5
    by (simp add: len str_int_def str_nat.simps digit_char_def)
qed

section \<open>A second run on the output\<close>

lemma run_stages_success:
  assumes "run_stages (f # fs) s = (None, s')"
  obtains s1 where "f s = (None, s1)" and "run_stages fs s1 = (None, s')"
proof -
  obtain e s1 where f: "f s = (e, s1)" by (cases "f s")
  with assms have "e = None" by (cases e) (simp_all add: run_stages_Cons)
  with assms f that show thesis by (simp add: run_stages_Cons)
qed

lemma write_authors_success_dates:
  assumes "for_each write_author (enumerate n rows) s = (None, s')"
  shows "\<forall>row\<in>set rows. 2 \<le> count_list (date row) CHR ''/''"
  using assms
proof (induction rows arbitrary: n s)
  case Nil
  show ?case by simp
next
  case (Cons row rows)
  obtain e s1 where w: "write_author (n, row) s = (e, s1)"
    by (cases "write_author (n, row) s")
  with Cons.prems have e: "e = None" by (cases e) simp_all
  with w have "\<exists>d. permute_date (date row) = Inr d"
    by (auto simp: write_author_def Let_def split: sum.splits)
  then have "2 \<le> count_list (date row) CHR ''/''"
    by (simp add: permute_date_Inr_iff)
  moreover from Cons.prems w e
  have "for_each write_author (enumerate (Suc n) rows) s1 = (None, s')" by simp
  then have "\<forall>row\<in>set rows. 2 \<le> count_list (date row) CHR ''/''" by (rule Cons.IH)
  ultimately show ?case by simp
qed

lemma write_authors_success:
  assumes "write_authors rows s = (None, s')"
  shows "\<forall>i<length rows. row_holds s' (TABLE4_START_ROW + int i) (rows ! i)"
proof -
  from assms have "\<forall>row\<in>set rows. 2 \<le> count_list (date row) CHR ''/''"
    unfolding write_authors_def by (rule write_authors_success_dates)
  from write_authors_result [OF this, of s] assms show ?thesis by auto
qed

lemma cells_readd_table:
  assumes "readd_table self k new_ref s = (e, s')"
  shows "cells s' = cells s"
  using assms
  by (auto simp: readd_table_def del_table_def add_table_def
        split: option.splits sum.splits if_splits)

lemma row_holds_cells: "cells s' = cells s \<Longrightarrow> row_holds s' r row = row_holds s r row"
  by (simp add: row_holds_def split: sum.splits)

lemma expand_sheet_success:
  assumes "expand_sheet lib self sheet = (None, sheet')"
  shows "\<forall>i<length (df self). row_holds sheet' (TABLE4_START_ROW + int i) (df self ! i)"
proof -
  define n where "n = int (length (df self)) - NUMBER_OF_EXISTING_ROWS_IN_TABLE4"
  from assms have "run_stages
        [returning clear_first_rows,
         copy_last_row n,
         returning (insert_author_rows lib n),
         style_new_rows n,
         write_authors (df self),
         readd_table self ''TableD5'' (ref_TableD5 n),
         readd_table self ''TableD'' (ref_TableD n)] sheet = (None, sheet')"
    by (simp add: expand_sheet_def Let_def n_def)
  then obtain s1 where "run_stages
        [copy_last_row n,
         returning (insert_author_rows lib n),
         style_new_rows n,
         write_authors (df self),
         readd_table self ''TableD5'' (ref_TableD5 n),
         readd_table self ''TableD'' (ref_TableD n)] s1 = (None, sheet')"
    by (rule run_stages_success)
  then obtain s2 where "run_stages
        [returning (insert_author_rows lib n),
         style_new_rows n,
         write_authors (df self),
         readd_table self ''TableD5'' (ref_TableD5 n),
         readd_table self ''TableD'' (ref_TableD n)] s2 = (None, sheet')"
    by (rule run_stages_success)
  then obtain s3 where "run_stages
        [style_new_rows n,
         write_authors (df self),
         readd_table self ''TableD5'' (ref_TableD5 n),
         readd_table self ''TableD'' (ref_TableD n)] s3 = (None, sheet')"
    by (rule run_stages_success)
  then obtain s4 where "run_stages
        [write_authors (df self),
         readd_table self ''TableD5'' (ref_TableD5 n),
         readd_table self ''TableD'' (ref_TableD n)] s4 = (None, sheet')"
    by (rule run_stages_success)
  then obtain s5 where w: "write_authors (df self) s4 = (None, s5)"
    and rest5: "run_stages
        [readd_table self ''TableD5'' (ref_TableD5 n),
         readd_table self ''TableD'' (ref_TableD n)] s5 = (None, sheet')"
    by (rule run_stages_success)
  from rest5 obtain s6 where r5: "readd_table self ''TableD5'' (ref_TableD5 n) s5 = (None, s6)"
    and rest6: "run_stages [readd_table self ''TableD'' (ref_TableD n)] s6 = (None, sheet')"
    by (rule run_stages_success)
  from rest6 obtain s7 where rD: "readd_table self ''TableD'' (ref_TableD n) s6 = (None, s7)"
    and rest7: "run_stages [] s7 = (None, sheet')"
    by (rule run_stages_success)
  from rest7 have "sheet' = s7" by (simp add: run_stages_Nil)
  with cells_readd_table [OF r5] cells_readd_table [OF rD]
  have "cells sheet' = cells s5" by simp
  then have "row_holds sheet' r row = row_holds s5 r row" for r row
    by (rule row_holds_cells)
  with write_authors_success [OF w] show ?thesis by simp
qed

lemma check_is_template_passes:
  assumes "check_is_template (loaded template) = None"
  obtains sheet others where "template = (TEMPLATE_SHEET, sheet) # others"
proof (cases template)
  case Nil
  with assms show thesis by (simp add: check_is_template_def loaded_def)
next
  case (Cons p others)
  obtain title sheet where p: "p = (title, sheet)" by (cases p)
  have "title = TEMPLATE_SHEET"
  proof (rule ccontr)
    assume "title \<noteq> TEMPLATE_SHEET"
    with assms show False by (simp add: check_is_template_def loaded_def Cons p)
  qed
  with Cons p that show thesis by simp
qed

lemma COA_init_success:
  assumes "COA_init lib template csv = (None, self')"
  obtains sheet' others where "out_file self' = Some ((TEMPLATE_SHEET, sheet') # others)"
    and "\<forall>i<length csv. row_holds sheet' (TABLE4_START_ROW + int i) (csv ! i)"
proof -
  have chk: "check_is_template (loaded template) = None"
  proof (cases "check_is_template (loaded template)")
    case (Some e)
    with assms show ?thesis by (simp add: COA_init_def)
  qed simp
  then obtain sheet others where t: "template = (TEMPLATE_SHEET, sheet) # others"
    by (rule check_is_template_passes)
  define self where "self = (loaded template)\<lparr>df := csv\<rparr>"
  have self: "wb self = (TEMPLATE_SHEET, sheet) # others" "df self = csv"
    by (simp_all add: self_def loaded_def t)
  obtain e sheet' where x: "expand_sheet lib self sheet = (e, sheet')"
    by (cases "expand_sheet lib self sheet")
  then have add: "add_author_affiliations lib self =
      (e, self\<lparr>wb := (TEMPLATE_SHEET, sheet') # others\<rparr>)"
    by (simp add: add_author_affiliations_def self(1))
  have e: "e = None"
  proof (cases e)
    case (Some err)
    with assms chk add show ?thesis
      by (simp add: COA_init_def self_def [symmetric])
  qed simp
  from assms chk add e
  have "self' = self\<lparr>wb := (TEMPLATE_SHEET, sheet') # others,
      out_file := Some ((TEMPLATE_SHEET, sheet') # others)\<rparr>"
    by (simp add: COA_init_def self_def [symmetric])
  then have "out_file self' = Some ((TEMPLATE_SHEET, sheet') # others)" by simp
  moreover from x e expand_sheet_success [of lib self sheet sheet']
  have "\<forall>i<length csv. row_holds sheet' (TABLE4_START_ROW + int i) (csv ! i)"
    by (simp add: self(2))
  ultimately show thesis by (rule that)
qed

text \<open>
  Claim C7.  When a run has completed and written its output from records whose first
  author is not the placeholder person, a second run on that output, with any records,
  raises the error of the second check; the output is left as loaded and nothing is
  saved, so the table is not expanded a second time.
\<close>

theorem second_run_fails:
  assumes "COA_init lib template csv = (None, self')"
    and "out_file self' = Some out"
    and "csv \<noteq> []" and "author (hd csv) \<noteq> ''Alphaman, Lin''"
  shows "COA_init lib' out csv' =
           (Some (ValueError ''The first row of the table 4 is not the template person''),
            \<lparr>wb = out, wb_alt = out, df = [], out_file = None\<rparr>)"
proof -
  from assms(1) obtain sheet' others
    where o: "out_file self' = Some ((TEMPLATE_SHEET, sheet') # others)"
    and rows: "\<forall>i<length csv. row_holds sheet' (TABLE4_START_ROW + int i) (csv ! i)"
    by (rule COA_init_success)
  from o assms(2) have out: "out = (TEMPLATE_SHEET, sheet') # others" by simp
  from assms(3) rows have "row_holds sheet' (TABLE4_START_ROW + int 0) (csv ! 0)"
    by (cases csv) auto
  then have "cvalue (cells sheet' (TABLE4_START_ROW, 2)) = VStr (author (hd csv))"
    using assms(3) by (simp add: row_holds_def hd_conv_nth)
  with assms(4) have "check_is_template (loaded out) =
      Some (ValueError ''The first row of the table 4 is not the template person'')"
    by (simp add: check_is_template_def loaded_def out TABLE4_TEMPLATE_PERSON_def)
  then have "COA_init lib' out csv' =
      (Some (ValueError ''The first row of the table 4 is not the template person''), loaded out)"
    by (rule COA_init_check_error)
  then show ?thesis by (simp add: loaded_def)
qed

theorem second_run_fails_witness:
  "\<exists>self' out. COA_init no_rows_moved small_template five_authors = (None, self') \<and>
     out_file self' = Some out \<and> five_authors \<noteq> [] \<and>
     author (hd five_authors) \<noteq> ''Alphaman, Lin'' \<and>
     COA_init no_rows_moved out five_authors =
       (Some (ValueError ''The first row of the table 4 is not the template person''),
        \<lparr>wb = out, wb_alt = out, df = [], out_file = None\<rparr>)"
proof -
  from COA_init_valid [OF valid_small_template well_formed_examples(1), of no_rows_moved]
  obtain self' where run: "COA_init no_rows_moved small_template five_authors = (None, self')"
    by blast
  then obtain sheet' others
    where o: "out_file self' = Some ((TEMPLATE_SHEET, sheet') # others)"
    by (rule COA_init_success)
  have ne: "five_authors \<noteq> []" "author (hd five_authors) \<noteq> ''Alphaman, Lin''"
    by (simp_all add: five_authors_def authors_def)
  from second_run_fails [OF run o ne, of no_rows_moved five_authors] run o ne
  show ?thesis by blast
qed

section \<open>The insertion of the rows\<close>

lemma rows_prepared_closed:
  assumes "- 5 \<le> n"
  shows "rows_prepared n sheet =
           (None, (clear_first_rows sheet)\<lparr>cells :=
              copied_cells (n + NUMBER_OF_EXISTING_ROWS_IN_TABLE4 + 1)
                (row_A_to_E (TABLE4_START_ROW + 5)) (cells (clear_first_rows sheet))\<rparr>)"
proof -
  have "copy_last_row n (clear_first_rows sheet) =
      (None, (clear_first_rows sheet)\<lparr>cells :=
              copied_cells (n + NUMBER_OF_EXISTING_ROWS_IN_TABLE4 + 1)
                (row_A_to_E (TABLE4_START_ROW + 5)) (cells (clear_first_rows sheet))\<rparr>)"
    unfolding copy_last_row_def
    using assms by (intro copy_one_row) (simp_all add: module_constants)
  then show ?thesis
    by (simp add: rows_prepared_def run_stages_Cons run_stages_Nil returning_def)
qed

lemma rows_prepared_ok:
  assumes "- 5 \<le> n"
  shows "\<exists>before. rows_prepared n sheet = (None, before)"
  using rows_prepared_closed [OF assms] by blast

lemma font_fold:
  "(\<And>x s. font (cells (f x s) rc) = font (cells s rc)) \<Longrightarrow>
   font (cells (fold f xs s) rc) = font (cells s rc)"
  by (induction xs arbitrary: s) auto

lemma font_set_value: "font (cells (set_value r c v s) rc) = font (cells s rc)"
  by (simp add: set_value_def set_cell_def)

lemma font_clear_first_rows: "font (cells (clear_first_rows s) rc) = font (cells s rc)"
  unfolding clear_first_rows_def
  by (intro font_fold) (simp add: font_set_value)

lemma insert_author_rows_spec:
  assumes "0 < n"
  shows "rows_inserted_spec 54 n (cells before) (cells (insert_author_rows lib n before))"
  using assms
  by (simp add: rows_inserted_spec_def insert_author_rows_def insert_rows_def
        TABLE4_START_ROW_def)

section \<open>The style of the inserted rows\<close>

lemma style_rows_frame:
  assumes "for_each (\<lambda>i s. copy_range (row_A_to_E TABLE4_START_ROW) s (1 + int i)) ns s = (e, s')"
    and "\<forall>i\<in>set ns. TABLE4_START_ROW + 1 + int i < r"
  shows "cells s' (r, c) = cells s (r, c)"
  using assms
proof (induction ns arbitrary: s)
  case Nil
  then show ?case by simp
next
  case (Cons i ns)
  let ?s1 = "s\<lparr>cells := copied_cells (1 + int i) (row_A_to_E TABLE4_START_ROW) (cells s)\<rparr>"
  have step: "copy_range (row_A_to_E TABLE4_START_ROW) s (1 + int i) = (None, ?s1)"
    by (intro copy_one_row) (simp_all add: module_constants)
  with Cons.prems(1) have
    "for_each (\<lambda>i s. copy_range (row_A_to_E TABLE4_START_ROW) s (1 + int i)) ns ?s1 = (e, s')"
    by simp
  moreover from Cons.prems(2) have "\<forall>i\<in>set ns. TABLE4_START_ROW + 1 + int i < r" by simp
  ultimately have "cells s' (r, c) = cells ?s1 (r, c)" by (rule Cons.IH)
  moreover from Cons.prems(2) have "cells ?s1 (r, c) = cells s (r, c)"
    by (simp add: copied_cells_def row_A_to_E_def)
  ultimately show ?case by simp
qed

lemma style_new_rows_frame:
  assumes "style_new_rows n s = (e, s')" and "TABLE4_START_ROW + n < r"
  shows "cells s' (r, c) = cells s (r, c)"
proof -
  from assms(2) have "\<forall>i\<in>set [0..<nat n]. TABLE4_START_ROW + 1 + int i < r" by auto
  with assms(1) show ?thesis
    unfolding style_new_rows_def by (rule style_rows_frame)
qed

lemma write_author_style:
  assumes "write_author (i, row) s = (e, s')"
  shows "(cells s' rc)\<lparr>cvalue := VNone\<rparr> = (cells s rc)\<lparr>cvalue := VNone\<rparr>"
  using assms
  by (auto simp: write_author_def Let_def set_value_def set_cell_def split: sum.splits)

lemma write_authors_style:
  assumes "for_each write_author (enumerate n rows) s = (e, s')"
  shows "(cells s' rc)\<lparr>cvalue := VNone\<rparr> = (cells s rc)\<lparr>cvalue := VNone\<rparr>"
  using assms
proof (induction rows arbitrary: n s)
  case Nil
  then show ?case by simp
next
  case (Cons row rows)
  obtain e1 s1 where w: "write_author (n, row) s = (e1, s1)"
    by (cases "write_author (n, row) s")
  note st = write_author_style [OF w, of rc]
  show ?case
  proof (cases e1)
    case (Some err)
    with Cons.prems w have "s' = s1" by simp
    with st show ?thesis by simp
  next
    case None
    with Cons.prems w have "for_each write_author (enumerate (Suc n) rows) s1 = (e, s')"
      by simp
    from Cons.IH [OF this] st show ?thesis by simp
  qed
qed

lemma expand_sheet_stages:
  assumes "expand_sheet lib self sheet = (None, sheet')"
  obtains s2 s4 s5 where "copy_last_row (int (length (df self)) - 5) (clear_first_rows sheet) = (None, s2)"
    and "style_new_rows (int (length (df self)) - 5)
           (insert_author_rows lib (int (length (df self)) - 5) s2) = (None, s4)"
    and "write_authors (df self) s4 = (None, s5)"
    and "cells sheet' = cells s5"
proof -
  define n where "n = int (length (df self)) - 5"
  from assms have "run_stages
        [returning clear_first_rows,
         copy_last_row n,
         returning (insert_author_rows lib n),
         style_new_rows n,
         write_authors (df self),
         readd_table self ''TableD5'' (ref_TableD5 n),
         readd_table self ''TableD'' (ref_TableD n)] sheet = (None, sheet')"
    by (simp add: expand_sheet_def Let_def n_def NUMBER_OF_EXISTING_ROWS_IN_TABLE4_def)
  then obtain s1 where s1: "returning clear_first_rows sheet = (None, s1)"
    and r1: "run_stages
        [copy_last_row n,
         returning (insert_author_rows lib n),
         style_new_rows n,
         write_authors (df self),
         readd_table self ''TableD5'' (ref_TableD5 n),
         readd_table self ''TableD'' (ref_TableD n)] s1 = (None, sheet')"
    by (rule run_stages_success)
  from r1 obtain s2 where s2: "copy_last_row n s1 = (None, s2)"
    and r2: "run_stages
        [returning (insert_author_rows lib n),
         style_new_rows n,
         write_authors (df self),
         readd_table self ''TableD5'' (ref_TableD5 n),
         readd_table self ''TableD'' (ref_TableD n)] s2 = (None, sheet')"
    by (rule run_stages_success)
  from r2 obtain s3 where s3: "returning (insert_author_rows lib n) s2 = (None, s3)"
    and r3: "run_stages
        [style_new_rows n,
         write_authors (df self),
         readd_table self ''TableD5'' (ref_TableD5 n),
         readd_table self ''TableD'' (ref_TableD n)] s3 = (None, sheet')"
    by (rule run_stages_success)
  from r3 obtain s4 where s4: "style_new_rows n s3 = (None, s4)"
    and r4: "run_stages
        [write_authors (df self),
         readd_table self ''TableD5'' (ref_TableD5 n),
         readd_table self ''TableD'' (ref_TableD n)] s4 = (None, sheet')"
    by (rule run_stages_success)
  from r4 obtain s5 where s5: "write_authors (df self) s4 = (None, s5)"
    and r5: "run_stages
        [readd_table self ''TableD5'' (ref_TableD5 n),
         readd_table self ''TableD'' (ref_TableD n)] s5 = (None, sheet')"
    by (rule run_stages_success)
  from r5 obtain s6 where s6: "readd_table self ''TableD5'' (ref_TableD5 n) s5 = (None, s6)"
    and r6: "run_stages [readd_table self ''TableD'' (ref_TableD n)] s6 = (None, sheet')"
    by (rule run_stages_success)
  from r6 obtain s7 where s7: "readd_table self ''TableD'' (ref_TableD n) s6 = (None, s7)"
    and r7: "run_stages [] s7 = (None, sheet')"
    by (rule run_stages_success)
  from r7 have "sheet' = s7" by (simp add: run_stages_Nil)
  with cells_readd_table [OF s6] cells_readd_table [OF s7]
  have c: "cells sheet' = cells s5" by simp
  from s1 have "s1 = clear_first_rows sheet" by (simp add: returning_def)
  with s2 have a: "copy_last_row n (clear_first_rows sheet) = (None, s2)" by simp
  from s3 have "s3 = insert_author_rows lib n s2" by (simp add: returning_def)
  with s4 have b: "style_new_rows n (insert_author_rows lib n s2) = (None, s4)" by simp
  from a b s5 c show thesis unfolding n_def by (rule that)
qed

text \<open>The loop that follows the insertion copies the style of row 52 to the rows 53 to
  52+toAdd, one row above the inserted rows 54 to 53+toAdd.  So in the output of every
  completed run with more than five records, the last inserted row, row 53+toAdd = 48+L,
  has the style of a blank row in every column; only its values are written.\<close>

lemma last_inserted_row_unstyled:
  assumes "expand_sheet lib self sheet = (None, sheet')" and "5 < length (df self)"
  shows "(cells sheet' (48 + int (length (df self)), c))\<lparr>cvalue := VNone\<rparr> = empty_cell"
proof -
  define n where "n = int (length (df self)) - 5"
  from assms(2) have n: "0 < n" by (simp add: n_def)
  have r: "48 + int (length (df self)) = 53 + n" by (simp add: n_def)
  from assms(1) obtain s2 s4 s5
    where s4: "style_new_rows n (insert_author_rows lib n s2) = (None, s4)"
    and s5: "write_authors (df self) s4 = (None, s5)"
    and c: "cells sheet' = cells s5"
    unfolding n_def by (rule expand_sheet_stages)
  have "cells (insert_author_rows lib n s2) (53 + n, c) = empty_cell"
    using n by (simp add: insert_author_rows_def insert_rows_def TABLE4_START_ROW_def)
  moreover have "cells s4 (53 + n, c) = cells (insert_author_rows lib n s2) (53 + n, c)"
    using s4 by (rule style_new_rows_frame) (simp add: TABLE4_START_ROW_def)
  moreover have "(cells s5 (53 + n, c))\<lparr>cvalue := VNone\<rparr> = (cells s4 (53 + n, c))\<lparr>cvalue := VNone\<rparr>"
    using s5 unfolding write_authors_def by (rule write_authors_style)
  ultimately show ?thesis
    by (simp add: c r empty_cell_def)
qed

section \<open>Where the rows are inserted\<close>

lemma COA_init_expanded:
  assumes "COA_init lib template csv = (None, self')"
  obtains sheet sheet' others where "template = (TEMPLATE_SHEET, sheet) # others"
    and "expand_sheet lib ((loaded template)\<lparr>df := csv\<rparr>) sheet = (None, sheet')"
    and "output_sheet self' = Some sheet'"
proof -
  have chk: "check_is_template (loaded template) = None"
  proof (cases "check_is_template (loaded template)")
    case (Some e)
    with assms show ?thesis by (simp add: COA_init_def)
  qed simp
  then obtain sheet others where t: "template = (TEMPLATE_SHEET, sheet) # others"
    by (rule check_is_template_passes)
  define self where "self = (loaded template)\<lparr>df := csv\<rparr>"
  have self: "wb self = (TEMPLATE_SHEET, sheet) # others"
    by (simp add: self_def loaded_def t)
  obtain e sheet' where x: "expand_sheet lib self sheet = (e, sheet')"
    by (cases "expand_sheet lib self sheet")
  then have add: "add_author_affiliations lib self =
      (e, self\<lparr>wb := (TEMPLATE_SHEET, sheet') # others\<rparr>)"
    by (simp add: add_author_affiliations_def self)
  have e: "e = None"
  proof (cases e)
    case (Some err)
    with assms chk add show ?thesis
      by (simp add: COA_init_def self_def [symmetric])
  qed simp
  from assms chk add e
  have "self' = self\<lparr>wb := (TEMPLATE_SHEET, sheet') # others,
      out_file := Some ((TEMPLATE_SHEET, sheet') # others)\<rparr>"
    by (simp add: COA_init_def self_def [symmetric])
  then have "output_sheet self' = Some sheet'"
    by (simp add: output_sheet_def TEMPLATE_SHEET_def)
  moreover from x e have "expand_sheet lib ((loaded template)\<lparr>df := csv\<rparr>) sheet = (None, sheet')"
    by (simp add: self_def)
  ultimately show thesis using t that by blast
qed

lemma cell_up_to_value:
  "c\<lparr>cvalue := VNone\<rparr> = empty_cell \<Longrightarrow> cvalue c = v \<Longrightarrow> c = empty_cell\<lparr>cvalue := v\<rparr>"
  by (cases c) (simp add: empty_cell_def)

lemma font_up_to_value:
  "(c :: cell)\<lparr>cvalue := VNone\<rparr> = d\<lparr>cvalue := VNone\<rparr> \<Longrightarrow> font c = font d"
  by (cases c, cases d) simp

lemma six_authors_facts:
  "length six_authors = 6"
  "six_authors ! 2 = \<lparr>author = ''Meitner, Lise'', affil = ''AIRA'', date = ''2022/06/01''\<rparr>"
  by (simp_all add: six_authors_def five_authors_def authors_def)

lemma six_authors_row_54:
  assumes x: "expand_sheet lib ((loaded small_template)\<lparr>df := six_authors\<rparr>) template_sheet = (None, sheet')"
  shows "cells sheet' (54, 2) = empty_cell\<lparr>cvalue := VStr ''Meitner, Lise''\<rparr>"
proof -
  let ?self = "(loaded small_template)\<lparr>df := six_authors\<rparr>"
  have "5 < length (df ?self)" by (simp add: six_authors_facts)
  from last_inserted_row_unstyled [OF x this, of 2]
  have u: "(cells sheet' (54, 2))\<lparr>cvalue := VNone\<rparr> = empty_cell"
    by (simp add: six_authors_facts)
  have "row_holds sheet' (TABLE4_START_ROW + int 2) (six_authors ! 2)"
    using expand_sheet_success [OF x, rule_format, of 2] by (simp add: six_authors_facts(1))
  then have "cvalue (cells sheet' (54, 2)) = VStr ''Meitner, Lise''"
    by (simp add: row_holds_def six_authors_facts TABLE4_START_ROW_def)
  with u show ?thesis by (rule cell_up_to_value)
qed

lemma six_authors_row_53:
  assumes x: "expand_sheet lib ((loaded small_template)\<lparr>df := six_authors\<rparr>) template_sheet = (None, sheet')"
  shows "font (cells sheet' (53, 2)) = 7"
proof -
  let ?self = "(loaded small_template)\<lparr>df := six_authors\<rparr>"
  have n: "int (length (df ?self)) - 5 = 1" by (simp add: six_authors_facts)
  from x obtain s2 s4 s5
    where s2: "copy_last_row 1 (clear_first_rows template_sheet) = (None, s2)"
    and s4: "style_new_rows 1 (insert_author_rows lib 1 s2) = (None, s4)"
    and s5: "write_authors (df ?self) s4 = (None, s5)"
    and c: "cells sheet' = cells s5"
    using expand_sheet_stages [OF x] unfolding n by blast
  have "rows_prepared 1 template_sheet = (None, s2)"
    using s2 by (simp add: rows_prepared_def run_stages_Cons run_stages_Nil returning_def)
  with rows_prepared_closed [of 1 template_sheet]
  have "s2 = (clear_first_rows template_sheet)\<lparr>cells :=
      copied_cells (1 + NUMBER_OF_EXISTING_ROWS_IN_TABLE4 + 1)
        (row_A_to_E (TABLE4_START_ROW + 5)) (cells (clear_first_rows template_sheet))\<rparr>"
    by simp
  then have "cells s2 (52, 2) = cells (clear_first_rows template_sheet) (52, 2)"
    by (simp add: copied_cells_def row_A_to_E_def module_constants)
  then have f2: "font (cells s2 (52, 2)) = 7"
    by (simp add: font_clear_first_rows template_sheet_def template_cells_def)
  let ?s3 = "insert_author_rows lib 1 s2"
  have f3: "font (cells ?s3 (52, 2)) = 7"
    using f2 by (simp add: insert_author_rows_def insert_rows_def TABLE4_START_ROW_def)
  have "copy_range (row_A_to_E TABLE4_START_ROW) ?s3 1 =
      (None, ?s3\<lparr>cells := copied_cells 1 (row_A_to_E TABLE4_START_ROW) (cells ?s3)\<rparr>)"
    by (intro copy_one_row) (simp_all add: module_constants)
  with s4 have "s4 = ?s3\<lparr>cells := copied_cells 1 (row_A_to_E TABLE4_START_ROW) (cells ?s3)\<rparr>"
    by (simp add: style_new_rows_def)
  then have "font (cells s4 (53, 2)) = font (cells ?s3 (52, 2))"
    by (simp add: copied_cells_def row_A_to_E_def TABLE4_START_ROW_def paste_def)
  moreover have "font (cells s5 (53, 2)) = font (cells s4 (53, 2))"
    using s5 unfolding write_authors_def
    by (intro font_up_to_value write_authors_style)
  ultimately show ?thesis using f3 c by simp
qed

lemma six_authors_row_53_kept:
  "\<not> rows_inserted_spec 53 (int (length six_authors) - 5)
       (cells (snd (rows_prepared (int (length six_authors) - 5) template_sheet)))
       (cells (insert_author_rows no_rows_moved (int (length six_authors) - 5)
          (snd (rows_prepared (int (length six_authors) - 5) template_sheet))))"
proof
  let ?before = "snd (rows_prepared (int (length six_authors) - 5) template_sheet)"
  let ?after = "insert_author_rows no_rows_moved (int (length six_authors) - 5) ?before"
  assume "rows_inserted_spec 53 (int (length six_authors) - 5) (cells ?before) (cells ?after)"
  then have "cells ?after (53, 2) = empty_cell"
    by (simp add: rows_inserted_spec_def six_authors_def five_authors_def authors_def)
  moreover have "cells ?after (53, 2) = cells ?before (53, 2)"
    by (simp add: insert_author_rows_def insert_rows_def TABLE4_START_ROW_def
          six_authors_def five_authors_def authors_def)
  moreover have "font (cells ?before (53, 2)) = 7"
  proof -
    have "int (length six_authors) - 5 = 1"
      by (simp add: six_authors_def five_authors_def authors_def)
    then have "cells ?before (53, 2) = cells (clear_first_rows template_sheet) (53, 2)"
      by (simp add: rows_prepared_closed copied_cells_def row_A_to_E_def module_constants)
    then show ?thesis
      by (simp add: font_clear_first_rows template_sheet_def template_cells_def)
  qed
  ultimately show False by (simp add: empty_cell_def)
qed


text \<open>
  Claim C4.  The claim is that the \<open>toAdd = L - 5\<close> blank rows are inserted from row 53 on,
  the second data row; these are the rows 53 to 52+toAdd to which the next loop of the
  program copies the style of the first data row.  The program inserts them one row
  further down, before row 54.  With the small template and six records (\<open>toAdd = 1\<close>):
  the insertion is not that of one blank row at row 53 but that of one blank row at row
  54; and in the output cell B53 has the font of the template, while cell B54, in the
  inserted row, holds the third author in a cell with no style at all.
\<close>

theorem insertion_starts_at_row_54:
  "\<not> rows_inserted_spec 53 (int (length six_authors) - 5)
       (cells (snd (rows_prepared (int (length six_authors) - 5) template_sheet)))
       (cells (insert_author_rows no_rows_moved (int (length six_authors) - 5)
          (snd (rows_prepared (int (length six_authors) - 5) template_sheet)))) \<and>
   rows_inserted_spec 54 (int (length six_authors) - 5)
       (cells (snd (rows_prepared (int (length six_authors) - 5) template_sheet)))
       (cells (insert_author_rows no_rows_moved (int (length six_authors) - 5)
          (snd (rows_prepared (int (length six_authors) - 5) template_sheet)))) \<and>
   map_option font (output_cell (COA_init no_rows_moved small_template six_authors) (53, 2)) =
     Some 7 \<and>
   output_cell (COA_init no_rows_moved small_template six_authors) (54, 2) =
     Some (empty_cell\<lparr>cvalue := VStr ''Meitner, Lise''\<rparr>)"
proof -
  have "0 < int (length six_authors) - 5" by (simp add: six_authors_facts)
  then have at54: "rows_inserted_spec 54 (int (length six_authors) - 5)
       (cells (snd (rows_prepared (int (length six_authors) - 5) template_sheet)))
       (cells (insert_author_rows no_rows_moved (int (length six_authors) - 5)
          (snd (rows_prepared (int (length six_authors) - 5) template_sheet))))"
    by (rule insert_author_rows_spec)
  from COA_init_valid [OF valid_small_template well_formed_examples(2), of no_rows_moved]
  obtain self' where run: "COA_init no_rows_moved small_template six_authors = (None, self')"
    by blast
  then obtain sheet sheet' others where t: "small_template = (TEMPLATE_SHEET, sheet) # others"
    and x: "expand_sheet no_rows_moved ((loaded small_template)\<lparr>df := six_authors\<rparr>) sheet =
      (None, sheet')"
    and out: "output_sheet self' = Some sheet'"
    by (rule COA_init_expanded)
  from t have "sheet = template_sheet"
    by (simp add: small_template_def template_sheet_def)
  with x have x': "expand_sheet no_rows_moved ((loaded small_template)\<lparr>df := six_authors\<rparr>)
      template_sheet = (None, sheet')" by simp
  have "output_cell (COA_init no_rows_moved small_template six_authors) rc =
      Some (cells sheet' rc)" for rc
    by (simp add: output_cell_def run out)
  with six_authors_row_53 [OF x'] six_authors_row_54 [OF x'] six_authors_row_53_kept at54
  show ?thesis by simp
qed

end
